theory Spec2Isabelle
  imports Main
begin

section \<open>Aged-care policy wiki: access control, sessions, slugs and search\<close>

text \<open>
  A shallow embedding of the helper modules of the wiki (\<open>utils/auth\<close>,
  \<open>utils/documents\<close>) and of the login handler of \<open>index.tsx\<close>. The relational
  store is a record of tables, each table a list of rows in storage order. Every
  operation takes the store and returns the updated store next to its result.
\<close>

subsection \<open>Tables\<close>

text \<open>
  A role row. The column \<open>permissions\<close> holds the text of a JSON array of strings;
  the field below is the array that \<open>JSON.parse\<close> yields from it.
\<close>

record role =
  role_id :: int
  role_name :: string
  permissions :: "string list"

record user_role =
  ur_user_id :: int
  ur_role_id :: int

text \<open>\<open>user_status\<close> is the text column \<open>status\<close>: active, inactive or suspended.\<close>

record user =
  user_id :: int
  email :: string
  user_name :: string
  password_hash :: string
  user_status :: string
  last_login_at :: "string option"

text \<open>
  The three timestamp columns of a session are declared \<open>DATETIME\<close>; the store keeps
  what is written to them as text.
\<close>

record session =
  session_id :: string
  session_user_id :: int
  expires_at :: string
  created_at :: string
  last_activity :: string

text \<open>
  The columns of \<open>documents\<close> that the queries below read. \<open>summary\<close>,
  \<open>business_unit_id\<close> and \<open>search_content\<close> may be NULL.
\<close>

record document =
  doc_id :: int
  title :: string
  slug :: string
  summary :: "string option"
  content_type :: string
  status :: string
  owner_id :: int
  effective_date :: string
  updated_at :: string
  category_id :: int
  business_unit_id :: "int option"
  search_content :: "string option"

record category =
  cat_id :: int
  cat_name :: string
  cat_slug :: string

record document_tag =
  dt_document_id :: int
  dt_tag_id :: int

record audit_log =
  actor_id :: "int option"
  action :: string
  object_type :: string
  object_id :: "int option"
  changes :: string
  ip_address :: string
  user_agent :: string

record db =
  users :: "user list"
  roles :: "role list"
  user_roles :: "user_role list"
  sessions :: "session list"
  documents :: "document list"
  categories :: "category list"
  document_tags :: "document_tag list"
  audit_logs :: "audit_log list"

text \<open>
  The errors that a statement can meet in the store: a constraint of the schema fails, the
  statement has more variables than the store takes, a \<open>LIMIT\<close> or \<open>OFFSET\<close> is
  not an integer, a \<open>LIKE\<close> pattern is too long. The call that runs the statement
  throws.
\<close>

datatype error = ConstraintFailed | TooManyVariables | DatatypeMismatch | PatternTooComplex

subsection \<open>Text and time as the store and the runtime render them\<close>

text \<open>
  Text values compare under the store's default collation: byte by byte, a proper
  prefix being smaller.
\<close>

fun text_less :: "string \<Rightarrow> string \<Rightarrow> bool" where
  "text_less [] [] = False"
| "text_less [] (y # ys) = True"
| "text_less (x # xs) [] = False"
| "text_less (x # xs) (y # ys) =
     (if (of_char x :: nat) < of_char y then True
      else if (of_char y :: nat) < of_char x then False
      else text_less xs ys)"

definition digit_char :: "nat \<Rightarrow> char" where
  "digit_char n = ''0123456789'' ! n"

text \<open>The decimal digits of a non-negative integer, as a template literal prints it.\<close>

fun show_nat :: "nat \<Rightarrow> string" where
  "show_nat n = (if n < 10 then [digit_char n] else show_nat (n div 10) @ [digit_char (n mod 10)])"

text \<open>Zeros in front until the text is \<open>w\<close> characters wide.\<close>

function pad_zeros :: "nat \<Rightarrow> string \<Rightarrow> string" where
  "pad_zeros w s = (if length s < w then pad_zeros w (CHR ''0'' # s) else s)"
  by pat_completeness auto
termination
  by (relation "measure (\<lambda>(w, s). w - length s)") auto

definition pad_left :: "nat \<Rightarrow> nat \<Rightarrow> string" where
  "pad_left w n = pad_zeros w (show_nat n)"

text \<open>
  The clock is a count of milliseconds since 1970-01-01T00:00:00Z, as \<open>Date.now()\<close>
  returns it. \<open>civil_from_days\<close> turns a count of days since 1 January 1970 into year,
  month and day of the Gregorian calendar: it takes whole years off the count, from 1970
  on, and then whole months of the year reached.
\<close>

definition leap_year :: "nat \<Rightarrow> bool" where
  "leap_year y = (y mod 4 = 0 \<and> (y mod 100 \<noteq> 0 \<or> y mod 400 = 0))"

definition year_length :: "nat \<Rightarrow> nat" where
  "year_length y = (if leap_year y then 366 else 365)"

definition month_lengths :: "nat \<Rightarrow> nat list" where
  "month_lengths y = [31, if leap_year y then 29 else 28, 31, 30, 31, 30, 31, 31, 30, 31, 30, 31]"

function year_from :: "nat \<Rightarrow> nat \<Rightarrow> nat \<times> nat" where
  "year_from y days =
     (if days < year_length y then (y, days) else year_from (Suc y) (days - year_length y))"
  by pat_completeness auto
termination
  by (relation "measure (\<lambda>(y, days). days)") (auto simp: year_length_def)

fun month_from :: "nat list \<Rightarrow> nat \<Rightarrow> nat \<Rightarrow> nat \<times> nat" where
  "month_from [] m days = (m, days)"
| "month_from (l # ls) m days =
     (if days < l then (m, days) else month_from ls (Suc m) (days - l))"

definition civil_from_days :: "nat \<Rightarrow> nat \<times> nat \<times> nat" where
  "civil_from_days days =
     (case year_from 1970 days of
        (y, rest) \<Rightarrow>
          (case month_from (month_lengths y) 1 rest of
             (m, d) \<Rightarrow> (y, m, Suc d)))"

definition date_text :: "nat \<Rightarrow> string" where
  "date_text ms =
     (case civil_from_days (ms div 86400000) of
        (y, m, d) \<Rightarrow>
          (if y \<le> 9999 then pad_left 4 y else ''+'' @ pad_left 6 y)
          @ ''-'' @ pad_left 2 m @ ''-'' @ pad_left 2 d)"

definition time_text :: "nat \<Rightarrow> string" where
  "time_text ms =
     pad_left 2 (ms div 3600000 mod 24) @ '':'' @ pad_left 2 (ms div 60000 mod 60)
       @ '':'' @ pad_left 2 (ms div 1000 mod 60)"

text \<open>\<open>Date.prototype.toISOString\<close>: \<open>YYYY-MM-DDTHH:mm:ss.sssZ\<close>.\<close>

definition toISOString :: "nat \<Rightarrow> string" where
  "toISOString ms = date_text ms @ ''T'' @ time_text ms @ ''.'' @ pad_left 3 (ms mod 1000) @ ''Z''"

text \<open>
  The instant that a text of the form \<open>YYYY-MM-DDTHH:mm:ss.sssZ\<close> denotes, as
  \<open>Date.parse\<close> reads it: the digits of each field, the days from 1 January 1970 to
  the date, and the time of day, in milliseconds.
\<close>

definition digit_value :: "char \<Rightarrow> nat" where
  "digit_value c = of_char c - 48"

definition digits_value :: "string \<Rightarrow> nat" where
  "digits_value s = foldl (\<lambda>n c. 10 * n + digit_value c) 0 s"

primrec days_of_years :: "nat \<Rightarrow> nat \<Rightarrow> nat" where
  "days_of_years y 0 = 0"
| "days_of_years y (Suc n) = year_length y + days_of_years (Suc y) n"

definition days_from_civil :: "nat \<Rightarrow> nat \<Rightarrow> nat \<Rightarrow> nat" where
  "days_from_civil y m d =
     days_of_years 1970 (y - 1970) + sum_list (take (m - 1) (month_lengths y)) + (d - 1)"

definition field :: "nat \<Rightarrow> nat \<Rightarrow> string \<Rightarrow> nat" where
  "field i n s = digits_value (take n (drop i s))"

definition iso_millis :: "string \<Rightarrow> nat option" where
  "iso_millis s =
     (if length s = 24 \<and> s ! 4 = CHR ''-'' \<and> s ! 7 = CHR ''-'' \<and> s ! 10 = CHR ''T''
         \<and> s ! 13 = CHR '':'' \<and> s ! 16 = CHR '':'' \<and> s ! 19 = CHR ''.'' \<and> s ! 23 = CHR ''Z''
      then Some (days_from_civil (field 0 4 s) (field 5 2 s) (field 8 2 s) * 86400000
                 + field 11 2 s * 3600000 + field 14 2 s * 60000 + field 17 2 s * 1000
                 + field 20 3 s)
      else None)"

text \<open>
  The store's \<open>datetime('now')\<close> and \<open>CURRENT_TIMESTAMP\<close>: \<open>YYYY-MM-DD HH:MM:SS\<close>,
  in UTC, the fraction of the second dropped.
\<close>

definition sqlite_datetime :: "nat \<Rightarrow> string" where
  "sqlite_datetime ms = date_text ms @ '' '' @ time_text ms"

subsection \<open>Sessions\<close>

text \<open>
  \<open>createSession\<close>. The identifier drawn by \<open>generateSessionId\<close> is the argument
  \<open>sessionId\<close>; \<open>now\<close> is the clock. The insert fails when the identifier is
  already a primary key of \<open>sessions\<close> or when no user row has the given id
  (the foreign key). \<open>created_at\<close> and \<open>last_activity\<close> take their column default.
\<close>

definition createSession :: "db \<Rightarrow> string \<Rightarrow> int \<Rightarrow> nat \<Rightarrow> error + (db \<times> string)" where
  "createSession db sessionId userId now =
     (let expiresAt = now + 60 * 60 * 1000 in
      if sessionId \<in> session_id ` set (sessions db) \<or> userId \<notin> user_id ` set (users db)
      then Inl ConstraintFailed
      else Inr (db\<lparr>sessions := sessions db @
                  [\<lparr>session_id = sessionId, session_user_id = userId,
                    expires_at = toISOString expiresAt,
                    created_at = sqlite_datetime now,
                    last_activity = sqlite_datetime now\<rparr>]\<rparr>,
                sessionId))"

text \<open>
  \<open>getSession\<close>: \<open>SELECT * FROM sessions WHERE id = ? AND expires_at > datetime('now')\<close>,
  first row. The column is declared \<open>DATETIME\<close>, which gives it numeric affinity, but
  neither the ISO text that \<open>createSession\<close> writes nor the value of
  \<open>datetime('now')\<close> reads as a number: both sides stay text and compare as text.
\<close>

definition getSession :: "db \<Rightarrow> string \<Rightarrow> nat \<Rightarrow> session option" where
  "getSession db sessionId now =
     find (\<lambda>s. session_id s = sessionId \<and> text_less (sqlite_datetime now) (expires_at s))
          (sessions db)"

definition updateSessionActivity :: "db \<Rightarrow> string \<Rightarrow> nat \<Rightarrow> db" where
  "updateSessionActivity db sessionId now =
     db\<lparr>sessions := map (\<lambda>s. if session_id s = sessionId
                              then s\<lparr>last_activity := sqlite_datetime now\<rparr> else s)
                         (sessions db)\<rparr>"

definition deleteSession :: "db \<Rightarrow> string \<Rightarrow> db" where
  "deleteSession db sessionId =
     db\<lparr>sessions := filter (\<lambda>s. session_id s \<noteq> sessionId) (sessions db)\<rparr>"

definition getUserFromSession :: "db \<Rightarrow> string \<Rightarrow> nat \<Rightarrow> db \<times> user option" where
  "getUserFromSession db sessionId now =
     (if sessionId = [] then (db, None)
      else case getSession db sessionId now of
             None \<Rightarrow> (db, None)
           | Some session \<Rightarrow>
               (case find (\<lambda>u. user_id u = session_user_id session \<and> user_status u = ''active'')
                          (users db) of
                  None \<Rightarrow> (db, None)
                | Some user \<Rightarrow> (updateSessionActivity db sessionId now, Some user)))"

subsection \<open>Permission evaluation\<close>

text \<open>
  \<open>SELECT r.permissions FROM roles r JOIN user_roles ur ON r.id = ur.role_id
  WHERE ur.user_id = ?\<close>: one result row for every pair of a role row and an
  assignment row that agree on the role id, the assignment being of the user.
\<close>

definition permission_rows :: "db \<Rightarrow> int \<Rightarrow> string list list" where
  "permission_rows db userId =
     concat (map (\<lambda>r. map (\<lambda>ur. permissions r)
                          (filter (\<lambda>ur. role_id r = ur_role_id ur \<and> ur_user_id ur = userId)
                                  (user_roles db)))
                 (roles db))"

text \<open>\<open>Set.prototype.add\<close> on a set kept in insertion order.\<close>

definition set_add :: "string list \<Rightarrow> string \<Rightarrow> string list" where
  "set_add s p = (if p \<in> set s then s else s @ [p])"

text \<open>
  \<open>getUserPermissions\<close>: the outer loop runs over the result rows, the inner
  \<open>forEach\<close> adds every permission of the row; \<open>Array.from\<close> lists the set in
  insertion order.
\<close>

definition getUserPermissions :: "db \<Rightarrow> int \<Rightarrow> string list" where
  "getUserPermissions db userId =
     fold (\<lambda>row allPermissions. fold (\<lambda>p s. set_add s p) row allPermissions)
          (permission_rows db userId) []"

definition hasPermission :: "db \<Rightarrow> int \<Rightarrow> string \<Rightarrow> bool" where
  "hasPermission db userId permission =
     (let perms = getUserPermissions db userId in
      if ''*'' \<in> set perms then True else permission \<in> set perms)"

subsection \<open>The login handler\<close>

text \<open>
  \<open>logAudit\<close> appends one row. The insert fails when an actor is given that is no
  user (the foreign key on \<open>actor_id\<close>).
\<close>

definition logAudit ::
  "db \<Rightarrow> int option \<Rightarrow> string \<Rightarrow> string \<Rightarrow> int option \<Rightarrow> string \<Rightarrow> string \<Rightarrow> string \<Rightarrow> error + db" where
  "logAudit db actorId act objectType objectId changesJson ipAddress userAgent =
     (case actorId of
        Some a \<Rightarrow>
          if a \<notin> user_id ` set (users db) then Inl ConstraintFailed
          else Inr (db\<lparr>audit_logs := audit_logs db @
                 [\<lparr>actor_id = actorId, action = act, object_type = objectType,
                   object_id = objectId, changes = changesJson,
                   ip_address = ipAddress, user_agent = userAgent\<rparr>]\<rparr>)
      | None \<Rightarrow>
          Inr (db\<lparr>audit_logs := audit_logs db @
                 [\<lparr>actor_id = actorId, action = act, object_type = objectType,
                   object_id = objectId, changes = changesJson,
                   ip_address = ipAddress, user_agent = userAgent\<rparr>]\<rparr>))"

record cookie =
  cookie_name :: string
  cookie_value :: string
  cookie_path :: string
  cookie_httpOnly :: bool
  cookie_secure :: bool
  cookie_sameSite :: string
  cookie_maxAge :: nat

text \<open>
  A response: the status, the \<open>error\<close> member of a JSON body, the \<open>Location\<close> of a
  redirect, and the cookie set on it.
\<close>

record response =
  resp_status :: nat
  resp_error :: "string option"
  resp_location :: "string option"
  resp_cookie :: "cookie option"

definition json_error :: "string \<Rightarrow> nat \<Rightarrow> response" where
  "json_error msg code =
     \<lparr>resp_status = code, resp_error = Some msg, resp_location = None, resp_cookie = None\<rparr>"

text \<open>\<open>header || 'unknown'\<close>: an absent or empty header reads as \<open>unknown\<close>.\<close>

definition or_unknown :: "string option \<Rightarrow> string" where
  "or_unknown h = (case h of None \<Rightarrow> ''unknown'' | Some v \<Rightarrow> if v = [] then ''unknown'' else v)"

text \<open>\<open>JSON.stringify({ success: true })\<close>: the text \<open>{"success":true}\<close>.\<close>

definition login_changes :: string where
  "login_changes = ''{'' @ [CHR 0x22] @ ''success'' @ [CHR 0x22] @ '':true}''"

text \<open>
  \<open>POST /api/auth/login\<close>. \<open>verifyPassword\<close> is the hash comparison of the
  password library, \<open>email\<close> and \<open>password\<close> are the two fields of the parsed
  form (absent fields are \<open>None\<close>), \<open>ip\<close> and \<open>ua\<close> the two request headers,
  \<open>newSessionId\<close> the identifier that \<open>generateSessionId\<close> draws, \<open>now\<close> the
  clock. The double-quoted \<open>"now"\<close> of the \<open>UPDATE\<close> names no column and is
  read as the text \<open>now\<close>. Whatever a statement of the store throws is caught and
  answered with 500; the statements that ran before it keep their effect.
\<close>

definition login ::
  "(string \<Rightarrow> string \<Rightarrow> bool) \<Rightarrow> db \<Rightarrow> string option \<Rightarrow> string option \<Rightarrow>
     string option \<Rightarrow> string option \<Rightarrow> string \<Rightarrow> nat \<Rightarrow> db \<times> response" where
  "login verifyPassword db email_field password_field ip ua newSessionId now =
     (case (email_field, password_field) of
        (Some em, Some pw) \<Rightarrow>
          if em = [] \<or> pw = [] then (db, json_error ''Email and password are required'' 400)
          else
            (case find (\<lambda>u. email u = em \<and> user_status u = ''active'') (users db) of
               None \<Rightarrow> (db, json_error ''Invalid email or password'' 401)
             | Some user \<Rightarrow>
                 if \<not> verifyPassword pw (password_hash user)
                 then (db, json_error ''Invalid email or password'' 401)
                 else
                   (case createSession db newSessionId (user_id user) now of
                      Inl e \<Rightarrow> (db, json_error ''Login failed'' 500)
                    | Inr (db1, sessionId) \<Rightarrow>
                        (let db2 = db1\<lparr>users :=
                                     map (\<lambda>u. if user_id u = user_id user
                                              then u\<lparr>last_login_at := Some (sqlite_datetime now)\<rparr>
                                              else u)
                                         (users db1)\<rparr>
                         in case logAudit db2 (Some (user_id user)) ''login'' ''user''
                                   (Some (user_id user)) login_changes
                                   (or_unknown ip) (or_unknown ua) of
                              Inl e \<Rightarrow> (db2, json_error ''Login failed'' 500)
                            | Inr db3 \<Rightarrow>
                                (db3,
                                 \<lparr>resp_status = 302, resp_error = None,
                                   resp_location = Some ''/'',
                                   resp_cookie = Some
                                     \<lparr>cookie_name = ''session_id'', cookie_value = sessionId,
                                       cookie_path = ''/'', cookie_httpOnly = True,
                                       cookie_secure = True, cookie_sameSite = ''Lax'',
                                       cookie_maxAge = 3600\<rparr>\<rparr>))))
      | _ \<Rightarrow> (db, json_error ''Email and password are required'' 400))"

subsection \<open>Slugs\<close>

text \<open>
  A JavaScript string is a sequence of UTF-16 code units. \<open>js_text\<close> is the string
  that an ASCII literal denotes.
\<close>

definition js_text :: "string \<Rightarrow> nat list" where
  "js_text s = map of_char s"

text \<open>
  \<open>\w\<close> is a letter of \<open>A\<close> to \<open>Z\<close> or \<open>a\<close> to \<open>z\<close>, a digit or the
  underscore. \<open>\s\<close>, and what \<open>trim\<close> removes, is tab, line feed, vertical tab, form
  feed, carriage return, space, no-break space (U+00A0), U+1680, U+2000 to U+200A, the
  line and paragraph separators (U+2028, U+2029), U+202F, U+205F, U+3000 and U+FEFF.
\<close>

definition is_word :: "nat \<Rightarrow> bool" where
  "is_word u = ((65 \<le> u \<and> u \<le> 90) \<or> (97 \<le> u \<and> u \<le> 122) \<or> (48 \<le> u \<and> u \<le> 57) \<or> u = 95)"

definition is_space :: "nat \<Rightarrow> bool" where
  "is_space u =
     ((9 \<le> u \<and> u \<le> 13) \<or> u = 32 \<or> u = 160 \<or> u = 5760 \<or> (8192 \<le> u \<and> u \<le> 8202)
      \<or> u = 8232 \<or> u = 8233 \<or> u = 8239 \<or> u = 8287 \<or> u = 12288 \<or> u = 65279)"

text \<open>
  \<open>toLowerCase\<close>. A unit of ASCII lower-cases by itself: a capital letter to its small
  letter, any other to itself. What the case mapping of the runtime puts in the place of a
  unit outside ASCII is given by a table, \<open>table s i\<close> for the unit at position \<open>i\<close>
  of the text \<open>s\<close> (the mapping of a character can depend on its neighbours, and a
  surrogate pair is mapped as one character). The table is a parameter: the results
  hold for every table.
\<close>

fun lower_units :: "(nat list \<Rightarrow> nat \<Rightarrow> nat list) \<Rightarrow> nat list \<Rightarrow> nat \<Rightarrow> nat list \<Rightarrow> nat list" where
  "lower_units table whole i [] = []"
| "lower_units table whole i (u # us) =
     (if u < 128 then [if 65 \<le> u \<and> u \<le> 90 then u + 32 else u] else table whole i)
     @ lower_units table whole (Suc i) us"

definition toLowerCase :: "(nat list \<Rightarrow> nat \<Rightarrow> nat list) \<Rightarrow> nat list \<Rightarrow> nat list" where
  "toLowerCase table s = lower_units table s 0 s"

text \<open>
  A table for the examples: the Kelvin sign (U+212A) becomes \<open>k\<close>, the dotted capital I
  (U+0130) becomes \<open>i\<close> and a combining dot, a capital of Latin-1 becomes its small
  letter, and any other unit stays.
\<close>

definition example_table :: "nat list \<Rightarrow> nat \<Rightarrow> nat list" where
  "example_table s i =
     (if s ! i = 8490 then [107]
      else if s ! i = 304 then [105, 775]
      else if 192 \<le> s ! i \<and> s ! i \<le> 222 \<and> s ! i \<noteq> 215 then [s ! i + 32]
      else [s ! i])"

text \<open>\<open>replace(/P+/g, '-')\<close>: every maximal run of units in \<open>P\<close> becomes one hyphen (45).\<close>

function replace_runs :: "(nat \<Rightarrow> bool) \<Rightarrow> nat list \<Rightarrow> nat list" where
  "replace_runs P [] = []"
| "replace_runs P (c # cs) =
     (if P c then 45 # replace_runs P (dropWhile P cs) else c # replace_runs P cs)"
  by pat_completeness auto
termination
  by (relation "measure (\<lambda>(P, s). length s)") (auto simp: length_dropWhile_le less_Suc_eq_le)

definition trim :: "nat list \<Rightarrow> nat list" where
  "trim s = rev (dropWhile is_space (rev (dropWhile is_space s)))"

text \<open>
  \<open>generateSlug\<close>: \<open>toLowerCase()\<close>, \<open>replace(/[^\w\s-]/g, '')\<close>,
  \<open>replace(/\s+/g, '-')\<close>, \<open>replace(/-+/g, '-')\<close>, \<open>trim()\<close>.
\<close>

definition generateSlug :: "(nat list \<Rightarrow> nat \<Rightarrow> nat list) \<Rightarrow> nat list \<Rightarrow> nat list" where
  "generateSlug table title_text =
     trim (replace_runs (\<lambda>u. u = 45)
             (replace_runs is_space
                (filter (\<lambda>u. is_word u \<or> is_space u \<or> u = 45)
                   (toLowerCase table title_text))))"

text \<open>
  The slug as the specification words it: lower-case the title, strip the non-word
  characters, collapse each whitespace run to a hyphen. Whitespace has to pass the second
  step for the third to find it. The hyphen is not a word character:
  \<open>spec_generateSlug_strict\<close> strips it, \<open>spec_generateSlug_lenient\<close> keeps it.
\<close>

definition spec_generateSlug_strict :: "(nat list \<Rightarrow> nat \<Rightarrow> nat list) \<Rightarrow> nat list \<Rightarrow> nat list" where
  "spec_generateSlug_strict table title_text =
     replace_runs is_space (filter (\<lambda>u. is_word u \<or> is_space u) (toLowerCase table title_text))"

definition spec_generateSlug_lenient :: "(nat list \<Rightarrow> nat \<Rightarrow> nat list) \<Rightarrow> nat list \<Rightarrow> nat list" where
  "spec_generateSlug_lenient table title_text =
     replace_runs is_space
       (filter (\<lambda>u. is_word u \<or> is_space u \<or> u = 45) (toLowerCase table title_text))"

text \<open>
  The lookup of \<open>ensureUniqueSlug\<close>: with a truthy \<open>documentId\<close> (given and not 0)
  \<open>SELECT id FROM documents WHERE slug = ? AND id != ?\<close>, otherwise
  \<open>SELECT id FROM documents WHERE slug = ?\<close>; first row.
\<close>

definition slug_lookup :: "db \<Rightarrow> int option \<Rightarrow> string \<Rightarrow> document option" where
  "slug_lookup db documentId s =
     (case documentId of
        Some d \<Rightarrow>
          if d \<noteq> 0 then find (\<lambda>r. slug r = s \<and> doc_id r \<noteq> d) (documents db)
          else find (\<lambda>r. slug r = s) (documents db)
      | None \<Rightarrow> find (\<lambda>r. slug r = s) (documents db))"

text \<open>
  The \<open>while (true)\<close> loop of \<open>ensureUniqueSlug\<close>, over the lookup it runs in each
  round. It has no bound, so it is a partial function: \<open>None\<close> is the loop that never
  returns. The counter is a JavaScript number, exact up to \<open>2^53\<close>; it is modelled
  as a natural number.
\<close>

partial_function (option) probe ::
  "(string \<Rightarrow> 'r option) \<Rightarrow> string \<Rightarrow> string \<Rightarrow> nat \<Rightarrow> string option" where
  "probe lookup baseSlug s counter =
     (case lookup s of
        None \<Rightarrow> Some s
      | Some existing \<Rightarrow> probe lookup baseSlug (baseSlug @ ''-'' @ show_nat counter) (counter + 1))"

definition ensureUniqueSlug :: "db \<Rightarrow> string \<Rightarrow> int option \<Rightarrow> string option" where
  "ensureUniqueSlug db baseSlug documentId = probe (slug_lookup db documentId) baseSlug baseSlug 1"

text \<open>The candidates in probing order: the base slug, then the base slug with \<open>-k\<close>.\<close>

definition candidate :: "string \<Rightarrow> nat \<Rightarrow> string" where
  "candidate baseSlug k = (if k = 0 then baseSlug else baseSlug @ ''-'' @ show_nat k)"

subsection \<open>Search\<close>

datatype sort_key = Relevance | Date | Title

text \<open>
  A number of the runtime: a whole number, a finite number with a fractional part, an
  infinity, or NaN.
\<close>

datatype number = Whole int | Fractional | Infinite | NaN

text \<open>The options bag; a member that is not set is \<open>None\<close>.\<close>

record search_options =
  opt_query :: "string option"
  opt_contentType :: "string option"
  opt_category :: "number option"
  opt_businessUnit :: "number option"
  opt_status :: "string option"
  opt_owner :: "number option"
  opt_tags :: "number list option"
  opt_fromDate :: "string option"
  opt_toDate :: "string option"
  opt_limit :: "number option"
  opt_offset :: "number option"
  opt_sortBy :: "sort_key option"
  opt_includeArchived :: "bool option"

text \<open>
  The guards \<open>if (options.x)\<close>: a text member counts when it is set and not empty, a
  numeric member when it is set and neither 0 nor NaN.
\<close>

definition truthy_text :: "string option \<Rightarrow> bool" where
  "truthy_text v = (case v of None \<Rightarrow> False | Some t \<Rightarrow> t \<noteq> [])"

definition truthy_num :: "number option \<Rightarrow> bool" where
  "truthy_num v = (case v of None \<Rightarrow> False | Some n \<Rightarrow> n \<noteq> Whole 0 \<and> n \<noteq> NaN)"

text \<open>
  A column declared \<open>DATE\<close> or \<open>DATETIME\<close> holds a text that reads as a number as
  that number, and a text bound for comparison with such a column is read the same way.
  A text reads as a number when it is, between optional blanks, an optional sign, digits
  with an optional decimal point among them (at least one digit), and an optional
  exponent: \<open>e\<close> or \<open>E\<close>, an optional sign and at least one digit.
\<close>

definition blank :: "char \<Rightarrow> bool" where
  "blank c = (c \<in> set [CHR 0x09, CHR 0x0A, CHR 0x0B, CHR 0x0C, CHR 0x0D, CHR '' ''])"

definition digit :: "char \<Rightarrow> bool" where
  "digit c = (c \<in> set ''0123456789'')"

definition skip_sign :: "string \<Rightarrow> string" where
  "skip_sign s =
     (case s of [] \<Rightarrow> [] | c # cs \<Rightarrow> if c = CHR ''-'' \<or> c = CHR ''+'' then cs else s)"

definition fraction_digits :: "string \<Rightarrow> string" where
  "fraction_digits s =
     (case s of [] \<Rightarrow> [] | c # cs \<Rightarrow> if c = CHR ''.'' then takeWhile digit cs else [])"

definition skip_fraction :: "string \<Rightarrow> string" where
  "skip_fraction s =
     (case s of [] \<Rightarrow> [] | c # cs \<Rightarrow> if c = CHR ''.'' then dropWhile digit cs else s)"

definition has_exponent :: "string \<Rightarrow> bool" where
  "has_exponent s = (case s of [] \<Rightarrow> False | c # cs \<Rightarrow> c = CHR ''e'' \<or> c = CHR ''E'')"

definition exponent_digits :: "string \<Rightarrow> string" where
  "exponent_digits s = takeWhile digit (skip_sign (tl s))"

definition skip_exponent :: "string \<Rightarrow> string" where
  "skip_exponent s = (if has_exponent s then dropWhile digit (skip_sign (tl s)) else s)"

definition mantissa_text :: "string \<Rightarrow> string" where
  "mantissa_text s = skip_sign (dropWhile blank s)"

definition after_mantissa :: "string \<Rightarrow> string" where
  "after_mantissa s = skip_fraction (dropWhile digit (mantissa_text s))"

definition reads_as_number :: "string \<Rightarrow> bool" where
  "reads_as_number s =
     ((takeWhile digit (mantissa_text s) \<noteq> []
         \<or> fraction_digits (dropWhile digit (mantissa_text s)) \<noteq> [])
      \<and> (if has_exponent (after_mantissa s) then exponent_digits (after_mantissa s) \<noteq> []
         else True)
      \<and> dropWhile blank (skip_exponent (after_mantissa s)) = [])"

text \<open>
  What the application leaves to the store it runs on. \<open>number_less\<close> orders the
  numbers that two texts that read as numbers denote. A statement takes at most
  \<open>max_variables\<close> bound values (no more than the runtime takes arguments in the call
  that appends the tags to the bound values) and a \<open>LIKE\<close> pattern at most
  \<open>max_pattern\<close> bytes. \<open>tests_like\<close> tells on which rows of the documents table the plan of the store
  evaluates the \<open>LIKE\<close> conditions of the query (a plan can leave out rows that fail
  another condition). Whether the whole number \<open>- 2 ^ 63\<close> reaches the store as an
  integer or as a floating-point value depends on the driver:
  \<open>least_integer_bound\<close>. The results hold for every store.
\<close>

record store_rules =
  number_less :: "string \<Rightarrow> string \<Rightarrow> bool"
  max_variables :: nat
  max_pattern :: nat
  tests_like :: "db \<Rightarrow> search_options \<Rightarrow> document \<Rightarrow> bool"
  least_integer_bound :: bool

text \<open>
  The order of the store on the values of a \<open>DATE\<close> or \<open>DATETIME\<close> column: two
  numbers compare as numbers, a number comes before every text, and two texts compare
  byte by byte.
\<close>

definition numeric_less :: "store_rules \<Rightarrow> string \<Rightarrow> string \<Rightarrow> bool" where
  "numeric_less rules a b =
     (if reads_as_number a
      then (if reads_as_number b then number_less rules a b else True)
      else \<not> reads_as_number b \<and> text_less a b)"

text \<open>
  The number that a text denotes, as a whole number times a power of ten, and the order
  of two such numbers by their exact values.
\<close>

definition negative :: "string \<Rightarrow> bool" where
  "negative s = (case s of [] \<Rightarrow> False | c # cs \<Rightarrow> c = CHR ''-'')"

definition decimal :: "string \<Rightarrow> int \<times> int" where
  "decimal s =
     ((if negative (dropWhile blank s) then - 1 else 1)
        * int (digits_value (takeWhile digit (mantissa_text s)
                             @ fraction_digits (dropWhile digit (mantissa_text s)))),
      (if negative (tl (after_mantissa s)) then - 1 else 1)
        * int (digits_value (exponent_digits (after_mantissa s)))
      - int (length (fraction_digits (dropWhile digit (mantissa_text s)))))"

definition decimal_less :: "int \<times> int \<Rightarrow> int \<times> int \<Rightarrow> bool" where
  "decimal_less a b =
     (if snd a \<le> snd b then fst a < fst b * 10 ^ nat (snd b - snd a)
      else fst a * 10 ^ nat (snd a - snd b) < fst b)"

definition lower_char :: "char \<Rightarrow> char" where
  "lower_char c =
     (case map_of (zip ''ABCDEFGHIJKLMNOPQRSTUVWXYZ'' ''abcdefghijklmnopqrstuvwxyz'') c of
        Some l \<Rightarrow> l
      | None \<Rightarrow> c)"

text \<open>
  Texts in the store are UTF-8. A character is a byte below \<open>0xC0\<close>, or a byte from
  \<open>0xC0\<close> on with the continuation bytes (\<open>0x80\<close> to \<open>0xBF\<close>) that follow it.
\<close>

definition continuation :: "char \<Rightarrow> bool" where
  "continuation c = (128 \<le> (of_char c :: nat) \<and> (of_char c :: nat) < 192)"

definition rest_of_char :: "char \<Rightarrow> string \<Rightarrow> string" where
  "rest_of_char c cs = (if 192 \<le> (of_char c :: nat) then dropWhile continuation cs else cs)"

text \<open>
  The store's \<open>LIKE\<close>: \<open>%\<close> stands for any run of characters, \<open>_\<close> for any one
  character, and the letters \<open>A\<close> to \<open>Z\<close> match without regard to case. The pattern
  comes first.
\<close>

function like :: "string \<Rightarrow> string \<Rightarrow> bool" where
  "like [] [] = True"
| "like [] (c # cs) = False"
| "like (p # ps) [] = (p = CHR ''%'' \<and> like ps [])"
| "like (p # ps) (c # cs) =
     (if p = CHR ''%'' then like ps (c # cs) \<or> like (p # ps) (rest_of_char c cs)
      else if p = CHR ''_'' then like ps (rest_of_char c cs)
      else lower_char p = lower_char c \<and> like ps cs)"
  by pat_completeness auto
termination
  by (relation "measure (\<lambda>(p, s). length p + length s)")
     (auto simp: rest_of_char_def length_dropWhile_le le_imp_less_Suc less_SucI)

text \<open>\<open>LIKE\<close> reads the pattern and the text up to the first zero byte.\<close>

definition c_text :: "string \<Rightarrow> string" where
  "c_text s = takeWhile (\<lambda>c. c \<noteq> CHR 0x00) s"

definition like_text :: "string \<Rightarrow> string \<Rightarrow> bool" where
  "like_text pat t = like (c_text pat) (c_text t)"

text \<open>\<open>LIKE\<close> on a column that may be NULL: NULL matches nothing.\<close>

definition like_null :: "string \<Rightarrow> string option \<Rightarrow> bool" where
  "like_null pat v = (case v of None \<Rightarrow> False | Some t \<Rightarrow> like_text pat t)"

text \<open>
  The \<open>WHERE\<close> clause that \<open>searchDocuments\<close> assembles, on one document row.
  A comparison with a NULL column is not true, so the row is left out. The id columns
  hold whole numbers: a number that is not whole equals none of them.
\<close>

definition search_where :: "store_rules \<Rightarrow> db \<Rightarrow> search_options \<Rightarrow> document \<Rightarrow> bool" where
  "search_where rules db options d =
     ((case opt_query options of
         None \<Rightarrow> True
       | Some q \<Rightarrow>
           if q = [] then True
           else like_text (''%'' @ q @ ''%'') (title d)
                \<or> like_null (''%'' @ q @ ''%'') (summary d)
                \<or> like_null (''%'' @ q @ ''%'') (search_content d))
      \<and> (if truthy_text (opt_contentType options)
         then Some (content_type d) = opt_contentType options else True)
      \<and> (if truthy_num (opt_category options)
         then Some (Whole (category_id d)) = opt_category options else True)
      \<and> (if truthy_num (opt_businessUnit options)
         then map_option Whole (business_unit_id d) = opt_businessUnit options else True)
      \<and> (if truthy_text (opt_status options) then Some (status d) = opt_status options
         else if opt_includeArchived options \<noteq> Some True then status d \<noteq> ''archived''
         else True)
      \<and> (if truthy_num (opt_owner options)
         then Some (Whole (owner_id d)) = opt_owner options else True)
      \<and> (case opt_fromDate options of
           None \<Rightarrow> True
         | Some f \<Rightarrow> if f = [] then True else \<not> numeric_less rules (effective_date d) f)
      \<and> (case opt_toDate options of
           None \<Rightarrow> True
         | Some t \<Rightarrow> if t = [] then True else \<not> numeric_less rules t (effective_date d))
      \<and> (case opt_tags options of
           None \<Rightarrow> True
         | Some ts \<Rightarrow>
             if 0 < length ts
             then doc_id d \<in> dt_document_id `
                    set (filter (\<lambda>dt. Whole (dt_tag_id dt) \<in> set ts) (document_tags db))
             else True))"

text \<open>A result row: \<open>d.*\<close> and the three joined columns.\<close>

record search_row =
  row_document :: document
  row_category_name :: "string option"
  row_category_slug :: "string option"
  row_owner_name :: "string option"

text \<open>\<open>LEFT JOIN\<close>: every matching row of the right table, or one NULL row when none matches.\<close>

definition left_matches :: "('b \<Rightarrow> bool) \<Rightarrow> 'b list \<Rightarrow> 'b option list" where
  "left_matches P ys = (case filter P ys of [] \<Rightarrow> [None] | m # ms \<Rightarrow> map Some (m # ms))"

definition joined_rows :: "db \<Rightarrow> document \<Rightarrow> search_row list" where
  "joined_rows db d =
     concat (map (\<lambda>c. map (\<lambda>u.
                    \<lparr>row_document = d,
                      row_category_name = map_option cat_name c,
                      row_category_slug = map_option cat_slug c,
                      row_owner_name = map_option user_name u\<rparr>)
                  (left_matches (\<lambda>u. user_id u = owner_id d) (users db)))
             (left_matches (\<lambda>c. cat_id c = category_id d) (categories db)))"

text \<open>\<open>ORDER BY\<close> as an insertion sort; rows with equal keys keep their order.\<close>

fun insert_by :: "('a \<Rightarrow> 'a \<Rightarrow> bool) \<Rightarrow> 'a \<Rightarrow> 'a list \<Rightarrow> 'a list" where
  "insert_by le x [] = [x]"
| "insert_by le x (y # ys) = (if le x y then x # y # ys else y # insert_by le x ys)"

definition sort_by :: "('a \<Rightarrow> 'a \<Rightarrow> bool) \<Rightarrow> 'a list \<Rightarrow> 'a list" where
  "sort_by le xs = foldr (insert_by le) xs []"

text \<open>
  \<open>ORDER BY d.title ASC\<close> compares texts; \<open>d.effective_date DESC\<close> and
  \<open>d.updated_at DESC\<close> compare values of a \<open>DATE\<close> and a \<open>DATETIME\<close> column.
\<close>

definition order_rows ::
  "store_rules \<Rightarrow> sort_key option \<Rightarrow> search_row list \<Rightarrow> search_row list" where
  "order_rows rules sortBy rows =
     (if sortBy = Some Title
      then sort_by (\<lambda>a b. \<not> text_less (title (row_document b)) (title (row_document a))) rows
      else if sortBy = Some Date
      then sort_by (\<lambda>a b. \<not> numeric_less rules (effective_date (row_document a))
                                        (effective_date (row_document b))) rows
      else sort_by (\<lambda>a b. \<not> numeric_less rules (updated_at (row_document a))
                                      (updated_at (row_document b))) rows)"

text \<open>
  \<open>LIMIT ? OFFSET ?\<close> as the store reads it: a negative limit is no limit, a negative
  offset is no offset.
\<close>

definition limit_offset :: "int \<Rightarrow> int \<Rightarrow> 'a list \<Rightarrow> 'a list" where
  "limit_offset lim off rows =
     (if lim < 0 then drop (nat off) rows else take (nat lim) (drop (nat off) rows))"

text \<open>\<open>options.limit || 20\<close> and \<open>options.offset || 0\<close>.\<close>

definition page_limit :: "search_options \<Rightarrow> number" where
  "page_limit options =
     (case opt_limit options of
        None \<Rightarrow> Whole 20
      | Some n \<Rightarrow> if n = Whole 0 \<or> n = NaN then Whole 20 else n)"

definition page_offset :: "search_options \<Rightarrow> number" where
  "page_offset options =
     (case opt_offset options of
        None \<Rightarrow> Whole 0
      | Some n \<Rightarrow> if n = Whole 0 \<or> n = NaN then Whole 0 else n)"

text \<open>
  The store takes as \<open>LIMIT\<close> or \<open>OFFSET\<close> a whole number strictly between
  \<open>- 2 ^ 63\<close> and \<open>2 ^ 63\<close>, and \<open>- 2 ^ 63\<close> itself when it is bound as an integer.
  Any other number is a datatype mismatch.
\<close>

definition bound_integer :: "store_rules \<Rightarrow> number \<Rightarrow> int option" where
  "bound_integer rules v =
     (case v of
        Whole n \<Rightarrow>
          if - (2 ^ 63) < n \<and> n < 2 ^ 63 then Some n
          else if n = - (2 ^ 63) \<and> least_integer_bound rules then Some n
          else None
      | Fractional \<Rightarrow> None
      | Infinite \<Rightarrow> None
      | NaN \<Rightarrow> None)"

text \<open>The number of values that \<open>searchDocuments\<close> binds: one for each \<open>?\<close> of the query.\<close>

definition variable_count :: "search_options \<Rightarrow> nat" where
  "variable_count options =
     (if truthy_text (opt_query options) then 3 else 0)
     + (if truthy_text (opt_contentType options) then 1 else 0)
     + (if truthy_num (opt_category options) then 1 else 0)
     + (if truthy_num (opt_businessUnit options) then 1 else 0)
     + (if truthy_text (opt_status options) then 1 else 0)
     + (if truthy_num (opt_owner options) then 1 else 0)
     + (if truthy_text (opt_fromDate options) then 1 else 0)
     + (if truthy_text (opt_toDate options) then 1 else 0)
     + (case opt_tags options of None \<Rightarrow> 0 | Some ts \<Rightarrow> length ts)
     + 2"

text \<open>
  The pattern \<open>%query%\<close> is longer than the store takes, and the store evaluates it
  on some row.
\<close>

definition pattern_fault :: "store_rules \<Rightarrow> db \<Rightarrow> search_options \<Rightarrow> bool" where
  "pattern_fault rules db options =
     (case opt_query options of
        None \<Rightarrow> False
      | Some q \<Rightarrow>
          q \<noteq> [] \<and> max_pattern rules < length (''%'' @ q @ ''%'')
          \<and> filter (tests_like rules db options) (documents db) \<noteq> [])"

text \<open>\<open>SELECT DISTINCT\<close>: of equal rows the first stays.\<close>

fun distinct_rows :: "'a list \<Rightarrow> 'a list" where
  "distinct_rows [] = []"
| "distinct_rows (x # xs) = x # distinct_rows (filter (\<lambda>y. y \<noteq> x) xs)"

text \<open>The rows that the query selects, before \<open>LIMIT\<close> and \<open>OFFSET\<close> cut the page.\<close>

definition search_matches :: "store_rules \<Rightarrow> db \<Rightarrow> search_options \<Rightarrow> search_row list" where
  "search_matches rules db options =
     order_rows rules (opt_sortBy options)
       (distinct_rows (concat (map (joined_rows db)
                                 (filter (search_where rules db options) (documents db)))))"

text \<open>
  \<open>searchDocuments\<close>. The call throws when the statement has more variables than the
  store takes, when the limit or the offset is not an integer of the store, and when the
  store meets a pattern that is too long.
\<close>

definition searchDocuments ::
  "store_rules \<Rightarrow> db \<Rightarrow> search_options \<Rightarrow> error + search_row list" where
  "searchDocuments rules db options =
     (if max_variables rules < variable_count options then Inl TooManyVariables
      else case bound_integer rules (page_limit options) of
        None \<Rightarrow> Inl DatatypeMismatch
      | Some lim \<Rightarrow>
          (case bound_integer rules (page_offset options) of
             None \<Rightarrow> Inl DatatypeMismatch
           | Some off \<Rightarrow>
               if pattern_fault rules db options then Inl PatternTooComplex
               else Inr (limit_offset lim off (search_matches rules db options))))"

subsection \<open>A small store\<close>

text \<open>
  Three users (the administrator of the seed data, a reader and a suspended account),
  three roles, two sessions created at 10:00 UTC on 1 January 2024, and three documents:
  a draft, a published one and an archived one.
\<close>

definition example_users :: "user list" where
  "example_users =
     [\<lparr>user_id = 1, email = ''admin@agewithcare.com'', user_name = ''System Administrator'',
       password_hash = ''hash:Admin123!'', user_status = ''active'', last_login_at = None\<rparr>,
      \<lparr>user_id = 2, email = ''reader@agewithcare.com'', user_name = ''Reader'',
       password_hash = ''hash:reader'', user_status = ''active'', last_login_at = None\<rparr>,
      \<lparr>user_id = 3, email = ''former@agewithcare.com'', user_name = ''Former'',
       password_hash = ''hash:former'', user_status = ''suspended'', last_login_at = None\<rparr>]"

definition example_roles :: "role list" where
  "example_roles =
     [\<lparr>role_id = 1, role_name = ''reader'',
       permissions = [''read_published'', ''download_allowed'', ''create_bookmarks'']\<rparr>,
      \<lparr>role_id = 5, role_name = ''system_owner'', permissions = [''*'']\<rparr>,
      \<lparr>role_id = 6, role_name = ''contributor'', permissions = []\<rparr>]"

definition example_user_roles :: "user_role list" where
  "example_user_roles =
     [\<lparr>ur_user_id = 1, ur_role_id = 5\<rparr>,
      \<lparr>ur_user_id = 2, ur_role_id = 1\<rparr>,
      \<lparr>ur_user_id = 3, ur_role_id = 6\<rparr>]"

definition example_sessions :: "session list" where
  "example_sessions =
     [\<lparr>session_id = ''s-admin'', session_user_id = 1,
       expires_at = ''2024-01-01T11:00:00.000Z'',
       created_at = ''2024-01-01 10:00:00'', last_activity = ''2024-01-01 10:00:00''\<rparr>,
      \<lparr>session_id = ''s-former'', session_user_id = 3,
       expires_at = ''2024-01-01T11:00:00.000Z'',
       created_at = ''2024-01-01 10:00:00'', last_activity = ''2024-01-01 10:00:00''\<rparr>]"

definition example_draft :: document where
  "example_draft =
     \<lparr>doc_id = 1, title = ''Consumer Rights Policy'', slug = ''consumer-rights-policy'',
      summary = Some ''Rights of consumers'', content_type = ''policy'', status = ''draft'',
      owner_id = 1, effective_date = ''2024-03-01'', updated_at = ''2024-01-03 09:00:00'',
      category_id = 1, business_unit_id = None, search_content = None\<rparr>"

definition example_published :: document where
  "example_published =
     \<lparr>doc_id = 2, title = ''Consumer Rights Policy'', slug = ''consumer-rights-policy-1'',
      summary = None, content_type = ''policy'', status = ''published'',
      owner_id = 1, effective_date = ''2024-02-01'', updated_at = ''2024-01-02 09:00:00'',
      category_id = 1, business_unit_id = Some 1, search_content = Some ''consumer rights''\<rparr>"

definition example_archived :: document where
  "example_archived =
     \<lparr>doc_id = 3, title = ''Visitor Procedure'', slug = ''visitor-procedure'',
      summary = None, content_type = ''procedure'', status = ''archived'',
      owner_id = 2, effective_date = ''2023-01-01'', updated_at = ''2024-01-01 09:00:00'',
      category_id = 1, business_unit_id = None, search_content = None\<rparr>"

definition example_documents :: "document list" where
  "example_documents = [example_draft, example_published, example_archived]"

definition example_db :: db where
  "example_db =
     \<lparr>users = example_users, roles = example_roles, user_roles = example_user_roles,
      sessions = example_sessions, documents = example_documents,
      categories = [\<lparr>cat_id = 1, cat_name = ''Policies'', cat_slug = ''policies''\<rparr>],
      document_tags = [\<lparr>dt_document_id = 1, dt_tag_id = 1\<rparr>],
      audit_logs = []\<rparr>"

text \<open>The options bag with no member set.\<close>

definition no_options :: search_options where
  "no_options =
     \<lparr>opt_query = None, opt_contentType = None, opt_category = None, opt_businessUnit = None,
      opt_status = None, opt_owner = None, opt_tags = None, opt_fromDate = None,
      opt_toDate = None, opt_limit = None, opt_offset = None, opt_sortBy = None,
      opt_includeArchived = None\<rparr>"

text \<open>
  A store for the examples. It compares numbers by their exact values, takes 100
  variables and patterns of 50 bytes, evaluates \<open>LIKE\<close> on every row of the documents
  table, and is handed every number as a floating-point value.
\<close>

definition example_rules :: store_rules where
  "example_rules =
     \<lparr>number_less = (\<lambda>a b. decimal_less (decimal a) (decimal b)),
      max_variables = 100,
      max_pattern = 50,
      tests_like = (\<lambda>db options d. True),
      least_integer_bound = False\<rparr>"

text \<open>A stand-in for the hash comparison: the hash of a password is the password after \<open>hash:\<close>.\<close>

definition example_verify :: "string \<Rightarrow> string \<Rightarrow> bool" where
  "example_verify password h = (h = ''hash:'' @ password)"

section \<open>Results\<close>

lemmas example_defs = example_db_def example_users_def example_roles_def example_user_roles_def
  example_sessions_def example_documents_def example_draft_def example_published_def
  example_archived_def

subsection \<open>Decimal digits and candidates\<close>

declare show_nat.simps [simp del]

lemma digit_char_inj: "a < 10 \<Longrightarrow> b < 10 \<Longrightarrow> digit_char a = digit_char b \<Longrightarrow> a = b"
  unfolding digit_char_def
  by (subst (asm) nth_eq_iff_index_eq) simp_all

lemma show_nat_not_Nil: "show_nat n \<noteq> []"
  by (subst show_nat.simps) simp

lemma show_nat_inj: "show_nat n = show_nat m \<Longrightarrow> n = m"
proof (induction n arbitrary: m rule: show_nat.induct)
  case (1 n)
  show ?case
  proof (cases "n < 10")
    case small_n: True
    show ?thesis
    proof (cases "m < 10")
      case True
      with small_n "1.prems" show ?thesis
        by (simp add: show_nat.simps [of n] show_nat.simps [of m] digit_char_inj)
    next
      case False
      with small_n "1.prems" show_nat_not_Nil [of "m div 10"] show ?thesis
        by (simp add: show_nat.simps [of n] show_nat.simps [of m] Cons_eq_append_conv)
    qed
  next
    case big_n: False
    show ?thesis
    proof (cases "m < 10")
      case True
      with big_n "1.prems" show_nat_not_Nil [of "n div 10"] show ?thesis
        by (simp add: show_nat.simps [of n] show_nat.simps [of m] append_eq_Cons_conv)
    next
      case False
      with big_n "1.prems" have eq: "show_nat (n div 10) = show_nat (m div 10)"
        and d: "digit_char (n mod 10) = digit_char (m mod 10)"
        by (simp_all add: show_nat.simps [of n] show_nat.simps [of m])
      from "1.IH" [OF big_n eq] have "n div 10 = m div 10" .
      moreover from d have "n mod 10 = m mod 10" by (intro digit_char_inj) simp_all
      ultimately show ?thesis by (metis div_mult_mod_eq)
    qed
  qed
qed

lemma candidate_inj: "candidate b j = candidate b k \<Longrightarrow> j = k"
  by (auto simp: candidate_def dest: show_nat_inj split: if_splits)

subsection \<open>The probing loop\<close>

lemma candidate_Suc: "b @ CHR ''-'' # show_nat (Suc c) = candidate b (Suc c)"
  by (simp add: candidate_def)

lemma probe_first_free:
  "lookup (candidate b (c + j)) = None \<Longrightarrow> (\<forall>i<j. lookup (candidate b (c + i)) \<noteq> None) \<Longrightarrow>
   probe lookup b (candidate b c) (Suc c) = Some (candidate b (c + j))"
proof (induction j arbitrary: c)
  case 0
  then show ?case by (subst probe.simps) simp
next
  case (Suc j)
  from Suc.prems(2) have taken: "lookup (candidate b c) \<noteq> None" by force
  have "probe lookup b (candidate b (Suc c)) (Suc (Suc c)) = Some (candidate b (Suc c + j))"
  proof (rule Suc.IH)
    show "lookup (candidate b (Suc c + j)) = None" using Suc.prems(1) by simp
    show "\<forall>i<j. lookup (candidate b (Suc c + i)) \<noteq> None"
    proof (intro allI impI)
      fix i assume "i < j"
      then have "Suc i < Suc j" by simp
      with Suc.prems(2) have "lookup (candidate b (c + Suc i)) \<noteq> None" by blast
      then show "lookup (candidate b (Suc c + i)) \<noteq> None" by simp
    qed
  qed
  with taken show ?case
    by (subst probe.simps) (auto simp: candidate_Suc)
qed

lemma probe_Some_free:
  "probe lookup b s c = Some y \<Longrightarrow>
   lookup y = None \<and> (y = s \<or> (\<exists>k\<ge>c. y = b @ ''-'' @ show_nat k))"
proof (induction rule: probe.raw_induct [rotated 1, consumes 1])
  case (1 probe' lookup b s c y)
  show ?case
  proof (cases "lookup s")
    case None
    with 1(2) show ?thesis by simp
  next
    case (Some e)
    with 1(2) have "probe' lookup b (b @ ''-'' @ show_nat c) (c + 1) = Some y" by simp
    from 1(1) [OF this] have free: "lookup y = None"
      and shape: "y = b @ ''-'' @ show_nat c \<or> (\<exists>k\<ge>c + 1. y = b @ ''-'' @ show_nat k)"
      by simp_all
    from shape have "\<exists>k\<ge>c. y = b @ ''-'' @ show_nat k"
    proof
      assume "y = b @ ''-'' @ show_nat c"
      then show ?thesis by (intro exI [of _ c]) simp
    next
      assume "\<exists>k\<ge>c + 1. y = b @ ''-'' @ show_nat k"
      then obtain k where "k \<ge> c + 1" "y = b @ ''-'' @ show_nat k" by blast
      then show ?thesis by (intro exI [of _ k]) simp
    qed
    with free show ?thesis by simp
  qed
qed

lemma probe_diverges:
  assumes "\<forall>k. lookup (candidate b k) \<noteq> None"
  shows "probe lookup b b 1 = None"
proof (rule ccontr)
  assume "probe lookup b b 1 \<noteq> None"
  then obtain y where y: "probe lookup b b 1 = Some y" by auto
  from probe_Some_free [OF y] have free: "lookup y = None"
    and shape: "y = b \<or> (\<exists>k\<ge>1. y = b @ ''-'' @ show_nat k)" by simp_all
  from shape have "\<exists>k. y = candidate b k"
  proof
    assume "y = b"
    then show ?thesis by (intro exI [of _ 0]) (simp add: candidate_def)
  next
    assume "\<exists>k\<ge>1. y = b @ ''-'' @ show_nat k"
    then obtain k where "k \<ge> 1" "y = b @ ''-'' @ show_nat k" by blast
    then show ?thesis by (intro exI [of _ k]) (simp add: candidate_def)
  qed
  then obtain k where "y = candidate b k" by blast
  with free have "lookup (candidate b k) = None" by simp
  with assms show False by blast
qed

lemma slug_lookup_None_iff:
  "slug_lookup db documentId s = None \<longleftrightarrow>
     (\<forall>r \<in> set (documents db). slug r = s \<longrightarrow>
         documentId \<noteq> Some 0 \<and> documentId = Some (doc_id r))"
  by (auto simp: slug_lookup_def find_None_iff split: option.splits)

lemma free_candidate_exists:
  "\<exists>k \<le> length (documents db). slug_lookup db documentId (candidate b k) = None"
proof (rule ccontr)
  assume "\<not> ?thesis"
  then have all: "\<forall>k \<le> length (documents db). candidate b k \<in> slug ` set (documents db)"
    by (force simp: slug_lookup_None_iff)
  let ?n = "length (documents db)"
  have "candidate b ` {0..?n} \<subseteq> slug ` set (documents db)" using all by auto
  then have "card (candidate b ` {0..?n}) \<le> card (slug ` set (documents db))"
    by (intro card_mono) auto
  moreover have "card (candidate b ` {0..?n}) = Suc ?n"
    by (subst card_image) (auto simp: inj_on_def dest: candidate_inj)
  moreover have "card (slug ` set (documents db)) \<le> ?n"
    by (meson card_image_le card_length le_trans List.finite_set)
  ultimately show False by simp
qed

lemma first_free_exists:
  "\<exists>k. slug_lookup db documentId (candidate b k) = None
       \<and> (\<forall>i<k. slug_lookup db documentId (candidate b i) \<noteq> None)"
proof -
  from free_candidate_exists [of db documentId b]
  have ex: "\<exists>k. slug_lookup db documentId (candidate b k) = None" by blast
  define k where "k = (LEAST k. slug_lookup db documentId (candidate b k) = None)"
  have "slug_lookup db documentId (candidate b k) = None"
    unfolding k_def using ex by (rule LeastI_ex)
  moreover have "\<forall>i<k. slug_lookup db documentId (candidate b i) \<noteq> None"
    unfolding k_def using not_less_Least by blast
  ultimately show ?thesis by blast
qed

lemma probe_from_base:
  "lookup (candidate b k) = None \<Longrightarrow> (\<forall>i<k. lookup (candidate b i) \<noteq> None) \<Longrightarrow>
   probe lookup b b 1 = Some (candidate b k)"
  using probe_first_free [of lookup b 0 k] by (simp add: candidate_def)

lemma ensureUniqueSlug_example:
  "ensureUniqueSlug example_db ''consumer-rights-policy'' (Some 2) = Some ''consumer-rights-policy-1''"
  unfolding ensureUniqueSlug_def
  by (simp add: probe.simps slug_lookup_def example_defs show_nat.simps digit_char_def)

lemma ensureUniqueSlug_example2:
  "ensureUniqueSlug example_db ''consumer-rights-policy'' None = Some ''consumer-rights-policy-2''"
  unfolding ensureUniqueSlug_def
  by (simp add: probe.simps slug_lookup_def example_defs show_nat.simps digit_char_def)

text \<open>
  C2. For every base slug and every documents table, \<open>ensureUniqueSlug\<close> returns, and the
  slug it returns is the slug of no row of the table other than the row whose id is the
  \<open>documentId\<close> given; called again with its own result it returns that result unchanged.
\<close>

theorem ensureUniqueSlug_unique_idempotent:
  "\<exists>s. ensureUniqueSlug db baseSlug documentId = Some s
       \<and> (\<forall>r \<in> set (documents db). slug r = s \<longrightarrow> documentId = Some (doc_id r))
       \<and> ensureUniqueSlug db s documentId = Some s"
proof -
  from first_free_exists [of db documentId baseSlug] obtain k
    where free: "slug_lookup db documentId (candidate baseSlug k) = None"
      and taken: "\<forall>i<k. slug_lookup db documentId (candidate baseSlug i) \<noteq> None" by blast
  let ?s = "candidate baseSlug k"
  have res: "ensureUniqueSlug db baseSlug documentId = Some ?s"
    unfolding ensureUniqueSlug_def using free taken by (rule probe_from_base)
  have absent: "\<forall>r \<in> set (documents db). slug r = ?s \<longrightarrow> documentId = Some (doc_id r)"
    using free by (simp add: slug_lookup_None_iff)
  have again: "ensureUniqueSlug db ?s documentId = Some ?s"
    unfolding ensureUniqueSlug_def using free by (subst probe.simps) simp
  from res absent again show ?thesis by blast
qed

theorem ensureUniqueSlug_unique_idempotent_witness:
  "ensureUniqueSlug example_db ''consumer-rights-policy'' (Some 2) = Some ''consumer-rights-policy-1''
   \<and> map doc_id (filter (\<lambda>r. slug r = ''consumer-rights-policy-1'') (documents example_db)) = [2]
   \<and> ensureUniqueSlug example_db ''consumer-rights-policy-1'' (Some 2) = Some ''consumer-rights-policy-1''"
proof -
  from ensureUniqueSlug_unique_idempotent [of example_db "''consumer-rights-policy''" "Some 2"]
  obtain s where s: "ensureUniqueSlug example_db ''consumer-rights-policy'' (Some 2) = Some s"
    and again: "ensureUniqueSlug example_db s (Some 2) = Some s" by blast
  from s have "s = ''consumer-rights-policy-1''" by (simp add: ensureUniqueSlug_example)
  moreover have "map doc_id (filter (\<lambda>r. slug r = ''consumer-rights-policy-1'')
                                   (documents example_db)) = [2]"
    by (simp add: example_defs)
  ultimately show ?thesis using s again by simp
qed

text \<open>
  C7. \<open>ensureUniqueSlug\<close> probes the candidates \<open>baseSlug\<close>, \<open>baseSlug-1\<close>,
  \<open>baseSlug-2\<close>, ... in this order: when some candidate is free, the loop returns
  the first free one (so \<open>baseSlug-1\<close> when only the base slug is taken); when no
  candidate is free, the loop never returns. The first two parts are about the loop over
  any lookup, the last two about the lookup in the documents table.
\<close>

theorem ensureUniqueSlug_first_free:
  "(lookup (candidate baseSlug k) = None \<and> (\<forall>i<k. lookup (candidate baseSlug i) \<noteq> None)
      \<longrightarrow> probe lookup baseSlug baseSlug 1 = Some (candidate baseSlug k))
   \<and> ((\<forall>j. lookup (candidate baseSlug j) \<noteq> None) \<longrightarrow> probe lookup baseSlug baseSlug 1 = None)
   \<and> (slug_lookup db documentId (candidate baseSlug k) = None
        \<and> (\<forall>i<k. slug_lookup db documentId (candidate baseSlug i) \<noteq> None)
      \<longrightarrow> ensureUniqueSlug db baseSlug documentId = Some (candidate baseSlug k))
   \<and> (slug_lookup db documentId baseSlug \<noteq> None
        \<and> slug_lookup db documentId (baseSlug @ ''-1'') = None
      \<longrightarrow> ensureUniqueSlug db baseSlug documentId = Some (baseSlug @ ''-1''))"
proof -
  have general: "probe f baseSlug baseSlug 1 = Some (candidate baseSlug n)"
    if "f (candidate baseSlug n) = None" "\<forall>i<n. f (candidate baseSlug i) \<noteq> None"
    for f :: "string \<Rightarrow> 'b option" and n
    using that by (rule probe_from_base)
  have one: "candidate baseSlug (Suc 0) = baseSlug @ ''-1''"
    by (simp add: candidate_def show_nat.simps digit_char_def)
  have zero: "candidate baseSlug 0 = baseSlug" by (simp add: candidate_def)
  have first: "ensureUniqueSlug db baseSlug documentId = Some (baseSlug @ ''-1'')"
    if "slug_lookup db documentId baseSlug \<noteq> None"
       "slug_lookup db documentId (baseSlug @ ''-1'') = None"
  proof -
    have "probe (slug_lookup db documentId) baseSlug baseSlug 1 = Some (candidate baseSlug (Suc 0))"
    proof (rule probe_from_base)
      show "slug_lookup db documentId (candidate baseSlug (Suc 0)) = None" using that(2) one by simp
      show "\<forall>i<Suc 0. slug_lookup db documentId (candidate baseSlug i) \<noteq> None"
        using that(1) zero by simp
    qed
    then show ?thesis by (simp add: ensureUniqueSlug_def one)
  qed
  show ?thesis
    using general [of lookup k] general [of "slug_lookup db documentId" k]
      probe_diverges [of lookup baseSlug] first
    by (simp add: ensureUniqueSlug_def)
qed

theorem ensureUniqueSlug_first_free_witness:
  "slug_lookup example_db None (candidate ''consumer-rights-policy'' 0) \<noteq> None
   \<and> slug_lookup example_db None (candidate ''consumer-rights-policy'' 1) \<noteq> None
   \<and> slug_lookup example_db None (candidate ''consumer-rights-policy'' 2) = None
   \<and> ensureUniqueSlug example_db ''consumer-rights-policy'' None = Some ''consumer-rights-policy-2''
   \<and> slug_lookup example_db None ''visitor-procedure'' \<noteq> None
   \<and> slug_lookup example_db None (''visitor-procedure'' @ ''-1'') = None
   \<and> ensureUniqueSlug example_db ''visitor-procedure'' None = Some ''visitor-procedure-1''
   \<and> probe (\<lambda>s. Some (0::nat)) ''policy'' ''policy'' 1 = None"
proof -
  have c2: "candidate ''consumer-rights-policy'' 2 = ''consumer-rights-policy-2''"
    by (simp add: candidate_def show_nat.simps digit_char_def)
  have free: "slug_lookup example_db None (candidate ''consumer-rights-policy'' 2) = None"
    by (simp add: c2 slug_lookup_def example_defs)
  have t0: "slug_lookup example_db None (candidate ''consumer-rights-policy'' 0) \<noteq> None"
    by (simp add: candidate_def slug_lookup_def example_defs)
  have t1: "slug_lookup example_db None (candidate ''consumer-rights-policy'' 1) \<noteq> None"
    by (simp add: candidate_def show_nat.simps digit_char_def slug_lookup_def example_defs)
  have taken: "\<forall>i<2. slug_lookup example_db None (candidate ''consumer-rights-policy'' i) \<noteq> None"
  proof (intro allI impI)
    fix i :: nat assume "i < 2"
    then have "i = 0 \<or> i = 1" by auto
    with t0 t1 show "slug_lookup example_db None (candidate ''consumer-rights-policy'' i) \<noteq> None"
      by blast
  qed
  have base: "slug_lookup example_db None ''visitor-procedure'' \<noteq> None"
    by (simp add: slug_lookup_def example_defs)
  have next_free: "slug_lookup example_db None (''visitor-procedure'' @ ''-1'') = None"
    by (simp add: slug_lookup_def example_defs)
  have all_taken: "\<forall>j. (\<lambda>s. Some (0::nat)) (candidate ''policy'' j) \<noteq> None" by simp
  from free taken
    ensureUniqueSlug_first_free [of "slug_lookup example_db None" "''consumer-rights-policy''" 2
       example_db None]
  have r1: "ensureUniqueSlug example_db ''consumer-rights-policy'' None = Some ''consumer-rights-policy-2''"
    by (simp add: c2)
  from base next_free
    ensureUniqueSlug_first_free [of "slug_lookup example_db None" "''visitor-procedure''" 0
       example_db None]
  have r2: "ensureUniqueSlug example_db ''visitor-procedure'' None = Some ''visitor-procedure-1''"
    by simp
  from all_taken
    ensureUniqueSlug_first_free [of "\<lambda>s. Some (0::nat)" "''policy''" 0 example_db None]
  have r3: "probe (\<lambda>s. Some (0::nat)) ''policy'' ''policy'' 1 = None" by blast
  from free t0 t1 r1 base next_free r2 r3 show ?thesis by blast
qed

subsection \<open>Time as text and back\<close>

declare pad_zeros.simps [simp del] year_from.simps [simp del]

lemma digit_value_digit_char: "d < 10 \<Longrightarrow> digit_value (digit_char d) = d"
proof -
  assume "d < 10"
  then have "d = 0 \<or> d = 1 \<or> d = 2 \<or> d = 3 \<or> d = 4 \<or> d = 5 \<or> d = 6 \<or> d = 7 \<or> d = 8 \<or> d = 9"
    by arith
  then show ?thesis by (elim disjE) (simp_all add: digit_value_def digit_char_def)
qed

lemma digits_value_snoc: "digits_value (s @ [c]) = 10 * digits_value s + digit_value c"
  by (simp add: digits_value_def)

lemma digits_value_show_nat: "digits_value (show_nat n) = n"
proof (induction n rule: show_nat.induct)
  case (1 n)
  show ?case
  proof (cases "n < 10")
    case True
    then show ?thesis
      by (subst show_nat.simps) (simp add: digits_value_def digit_value_digit_char)
  next
    case False
    with 1 have "digits_value (show_nat (n div 10)) = n div 10" by simp
    with False show ?thesis
      by (subst show_nat.simps) (simp add: digits_value_snoc digit_value_digit_char)
  qed
qed

lemma digits_value_zero: "digits_value (CHR ''0'' # s) = digits_value s"
  by (simp add: digits_value_def digit_value_def)

lemma digits_value_pad_zeros: "digits_value (pad_zeros w s) = digits_value s"
proof (induction w s rule: pad_zeros.induct)
  case (1 w s)
  then show ?case by (subst pad_zeros.simps) (simp add: digits_value_zero)
qed

lemma length_pad_zeros: "length s \<le> w \<Longrightarrow> length (pad_zeros w s) = w"
proof (induction w s rule: pad_zeros.induct)
  case (1 w s)
  then show ?case by (subst pad_zeros.simps) auto
qed

lemma length_show_nat: "0 < k \<Longrightarrow> n < 10 ^ k \<Longrightarrow> length (show_nat n) \<le> k"
proof (induction n arbitrary: k rule: show_nat.induct)
  case (1 n)
  show ?case
  proof (cases "n < 10")
    case True
    with "1.prems" show ?thesis by (subst show_nat.simps) simp
  next
    case False
    with "1.prems" have "k \<noteq> 1" by auto
    with "1.prems" obtain j where k: "k = Suc j" "0 < j" by (cases k) auto
    with "1.prems" have "n div 10 < 10 ^ j" by (simp add: less_mult_imp_div_less mult.commute)
    with "1.IH" [OF False \<open>0 < j\<close>] have "length (show_nat (n div 10)) \<le> j" by simp
    with False k show ?thesis by (subst show_nat.simps) simp
  qed
qed

lemma digits_value_pad_left: "digits_value (pad_left w n) = n"
  by (simp add: pad_left_def digits_value_pad_zeros digits_value_show_nat)

lemma length_pad_left: "0 < w \<Longrightarrow> n < 10 ^ w \<Longrightarrow> length (pad_left w n) = w"
  by (simp add: pad_left_def length_pad_zeros length_show_nat)

lemma year_from_sound:
  "year_from y n = (y', r) \<Longrightarrow> \<exists>k. y' = y + k \<and> days_of_years y k + r = n \<and> r < year_length y'"
proof (induction y n arbitrary: y' r rule: year_from.induct)
  case (1 y days)
  show ?case
  proof (cases "days < year_length y")
    case True
    with "1.prems" have "y' = y" "r = days" by (simp_all add: year_from.simps [of y days])
    with True show ?thesis by (intro exI [of _ 0]) simp
  next
    case False
    with "1.prems" have "year_from (Suc y) (days - year_length y) = (y', r)"
      by (simp add: year_from.simps [of y days])
    from "1.IH" [OF False this] obtain k where
      k: "y' = Suc y + k" "days_of_years (Suc y) k + r = days - year_length y" "r < year_length y'"
      by blast
    with False show ?thesis by (intro exI [of _ "Suc k"]) simp
  qed
qed

lemma month_from_sound:
  "month_from ls m n = (m', r) \<Longrightarrow> n < sum_list ls \<Longrightarrow>
   \<exists>k. m' = m + k \<and> k < length ls \<and> sum_list (take k ls) + r = n \<and> r < ls ! k"
proof (induction ls arbitrary: m n)
  case Nil
  then show ?case by simp
next
  case (Cons l ls)
  show ?case
  proof (cases "n < l")
    case True
    with Cons.prems have "m' = m" "r = n" by simp_all
    with True show ?thesis by (intro exI [of _ 0]) simp
  next
    case False
    with Cons.prems have step: "month_from ls (Suc m) (n - l) = (m', r)" by simp
    from False Cons.prems(2) have "n - l < sum_list ls" by simp
    from Cons.IH [OF step this] obtain k where
      k: "m' = Suc m + k" "k < length ls" "sum_list (take k ls) + r = n - l" "r < ls ! k"
      by blast
    with False show ?thesis by (intro exI [of _ "Suc k"]) simp
  qed
qed

lemma sum_month_lengths: "sum_list (month_lengths y) = year_length y"
  by (simp add: month_lengths_def year_length_def)

lemma month_lengths_le: "k < 12 \<Longrightarrow> month_lengths y ! k \<le> 31"
proof -
  assume "k < 12"
  then have "k = 0 \<or> k = 1 \<or> k = 2 \<or> k = 3 \<or> k = 4 \<or> k = 5 \<or> k = 6 \<or> k = 7 \<or> k = 8
      \<or> k = 9 \<or> k = 10 \<or> k = 11" by arith
  then show ?thesis by (elim disjE) (simp_all add: month_lengths_def)
qed

lemma civil_from_days_sound:
  assumes "civil_from_days n = (y, m, d)"
  shows "days_from_civil y m d = n \<and> 1 \<le> m \<and> m \<le> 12 \<and> 1 \<le> d \<and> d \<le> 31"
proof -
  obtain y' r where yr: "year_from 1970 n = (y', r)" by (cases "year_from 1970 n")
  obtain m' d' where md: "month_from (month_lengths y') 1 r = (m', d')"
    by (cases "month_from (month_lengths y') 1 r")
  from assms yr md have eq: "y = y'" "m = m'" "d = Suc d'" by (simp_all add: civil_from_days_def)
  from year_from_sound [OF yr] obtain k where
    k: "y' = 1970 + k" "days_of_years 1970 k + r = n" "r < year_length y'" by blast
  from k(3) have "r < sum_list (month_lengths y')" by (simp add: sum_month_lengths)
  from month_from_sound [OF md this] obtain j where
    j: "m' = 1 + j" "j < length (month_lengths y')" "sum_list (take j (month_lengths y')) + d' = r"
       "d' < month_lengths y' ! j" by blast
  from j(2) have j12: "j < 12" by (simp add: month_lengths_def)
  from month_lengths_le [OF j12, of y'] j(4) have "d' < 31" by simp
  with eq k j j12 show ?thesis by (simp add: days_from_civil_def)
qed

lemma clock_parts:
  "(ms div 86400000) * 86400000 + (ms div 3600000 mod 24) * 3600000
     + (ms div 60000 mod 60) * 60000 + (ms div 1000 mod 60) * 1000 + ms mod 1000 = (ms :: nat)"
proof -
  have a: "ms div 60000 = ms div 1000 div 60" by (simp add: div_mult2_eq)
  have b: "ms div 3600000 = ms div 1000 div 60 div 60" by (simp add: div_mult2_eq)
  have c: "ms div 86400000 = ms div 1000 div 60 div 60 div 24" by (simp add: div_mult2_eq)
  define s where "s = ms div 1000"
  define mi where "mi = s div 60"
  define h where "h = mi div 60"
  have 1: "ms = s * 1000 + ms mod 1000" by (simp add: s_def)
  have 2: "s = mi * 60 + s mod 60" by (simp add: mi_def)
  have 3: "mi = h * 60 + mi mod 60" by (simp add: h_def)
  have 4: "h = (h div 24) * 24 + h mod 24" by simp
  have "(h div 24) * 86400000 + (h mod 24) * 3600000 + (mi mod 60) * 60000 + (s mod 60) * 1000
          + ms mod 1000 = ms"
    using 1 2 3 4 by arith
  then show ?thesis unfolding a b c s_def [symmetric] mi_def [symmetric] h_def [symmetric] .
qed

lemma field_at: "length p = i \<Longrightarrow> length x = n \<Longrightarrow> field i n (p @ x @ r) = digits_value x"
  by (simp add: field_def)

lemma nth_at: "length p = i \<Longrightarrow> (p @ c # r) ! i = c"
  by (simp add: nth_append)

lemma iso_millis_parts:
  assumes "length A = 4" "length B = 2" "length C = 2" "length D = 2" "length E = 2"
    "length F = 2" "length G = 3"
  shows "iso_millis (A @ ''-'' @ B @ ''-'' @ C @ ''T'' @ D @ '':'' @ E @ '':'' @ F @ ''.'' @ G @ ''Z'') =
     Some (days_from_civil (digits_value A) (digits_value B) (digits_value C) * 86400000
           + digits_value D * 3600000 + digits_value E * 60000 + digits_value F * 1000
           + digits_value G)"
proof -
  let ?s = "A @ ''-'' @ B @ ''-'' @ C @ ''T'' @ D @ '':'' @ E @ '':'' @ F @ ''.'' @ G @ ''Z''"
  have len: "length ?s = 24" using assms by simp
  have fA: "field 0 4 ?s = digits_value A"
    using field_at [of "[]" 0 A 4] assms by simp
  have fB: "field 5 2 ?s = digits_value B"
    using field_at [of "A @ ''-''" 5 B 2 "''-'' @ C @ ''T'' @ D @ '':'' @ E @ '':'' @ F @ ''.'' @ G @ ''Z''"]
      assms by simp
  have fC: "field 8 2 ?s = digits_value C"
    using field_at [of "A @ ''-'' @ B @ ''-''" 8 C 2 "''T'' @ D @ '':'' @ E @ '':'' @ F @ ''.'' @ G @ ''Z''"]
      assms by simp
  have fD: "field 11 2 ?s = digits_value D"
    using field_at [of "A @ ''-'' @ B @ ''-'' @ C @ ''T''" 11 D 2 "'':'' @ E @ '':'' @ F @ ''.'' @ G @ ''Z''"]
      assms by simp
  have fE: "field 14 2 ?s = digits_value E"
    using field_at [of "A @ ''-'' @ B @ ''-'' @ C @ ''T'' @ D @ '':''" 14 E 2 "'':'' @ F @ ''.'' @ G @ ''Z''"]
      assms by simp
  have fF: "field 17 2 ?s = digits_value F"
    using field_at [of "A @ ''-'' @ B @ ''-'' @ C @ ''T'' @ D @ '':'' @ E @ '':''" 17 F 2 "''.'' @ G @ ''Z''"]
      assms by simp
  have fG: "field 20 3 ?s = digits_value G"
    using field_at [of "A @ ''-'' @ B @ ''-'' @ C @ ''T'' @ D @ '':'' @ E @ '':'' @ F @ ''.''" 20 G 3 "''Z''"]
      assms by simp
  have s4: "?s ! 4 = CHR ''-''"
    using nth_at [of A 4 "CHR ''-''"] assms by simp
  have s7: "?s ! 7 = CHR ''-''"
    using nth_at [of "A @ ''-'' @ B" 7 "CHR ''-''"] assms by simp
  have s10: "?s ! 10 = CHR ''T''"
    using nth_at [of "A @ ''-'' @ B @ ''-'' @ C" 10 "CHR ''T''"] assms by simp
  have s13: "?s ! 13 = CHR '':''"
    using nth_at [of "A @ ''-'' @ B @ ''-'' @ C @ ''T'' @ D" 13 "CHR '':''"] assms by simp
  have s16: "?s ! 16 = CHR '':''"
    using nth_at [of "A @ ''-'' @ B @ ''-'' @ C @ ''T'' @ D @ '':'' @ E" 16 "CHR '':''"] assms by simp
  have s19: "?s ! 19 = CHR ''.''"
    using nth_at [of "A @ ''-'' @ B @ ''-'' @ C @ ''T'' @ D @ '':'' @ E @ '':'' @ F" 19 "CHR ''.''"]
      assms by simp
  have s23: "?s ! 23 = CHR ''Z''"
    using nth_at [of "A @ ''-'' @ B @ ''-'' @ C @ ''T'' @ D @ '':'' @ E @ '':'' @ F @ ''.'' @ G" 23 "CHR ''Z''"]
      assms by simp
  show ?thesis
    unfolding iso_millis_def by (simp only: len fA fB fC fD fE fF fG s4 s7 s10 s13 s16 s19 s23) simp
qed

text \<open>
  Reading back the text that \<open>toISOString\<close> writes gives the instant written, for
  every instant in a year up to 9999, where the year has four digits.
\<close>

lemma iso_millis_toISOString:
  assumes "fst (civil_from_days (ms div 86400000)) \<le> 9999"
  shows "iso_millis (toISOString ms) = Some ms"
proof -
  obtain y m d where ymd: "civil_from_days (ms div 86400000) = (y, m, d)"
    by (cases "civil_from_days (ms div 86400000)")
  from civil_from_days_sound [OF ymd]
  have days: "days_from_civil y m d = ms div 86400000" and m: "m \<le> 12" and d: "d \<le> 31" by simp_all
  from assms ymd have y: "y \<le> 9999" by simp
  let ?A = "pad_left 4 y" and ?B = "pad_left 2 m" and ?C = "pad_left 2 d"
    and ?D = "pad_left 2 (ms div 3600000 mod 24)" and ?E = "pad_left 2 (ms div 60000 mod 60)"
    and ?F = "pad_left 2 (ms div 1000 mod 60)" and ?G = "pad_left 3 (ms mod 1000)"
  have shape: "toISOString ms = ?A @ ''-'' @ ?B @ ''-'' @ ?C @ ''T'' @ ?D @ '':'' @ ?E @ '':'' @ ?F @ ''.'' @ ?G @ ''Z''"
    using y by (simp add: toISOString_def date_text_def time_text_def ymd)
  have lens: "length ?A = 4" "length ?B = 2" "length ?C = 2" "length ?D = 2" "length ?E = 2"
    "length ?F = 2" "length ?G = 3"
    using y m d by (simp_all add: length_pad_left)
  show ?thesis
    unfolding shape iso_millis_parts [OF lens]
    by (simp add: digits_value_pad_left days clock_parts)
qed

subsection \<open>Sessions\<close>

lemmas time_defs = toISOString_def sqlite_datetime_def date_text_def time_text_def pad_left_def
  civil_from_days_def month_lengths_def year_length_def leap_year_def digit_char_def
  pad_zeros.simps year_from.simps
  show_nat.simps

lemma iso_11: "toISOString 1704106800000 = ''2024-01-01T11:00:00.000Z''"
  by (simp add: time_defs)
lemma sql_10: "sqlite_datetime 1704103200000 = ''2024-01-01 10:00:00''"
  by (simp add: time_defs)
lemma sql_1030: "sqlite_datetime 1704105000000 = ''2024-01-01 10:30:00''"
  by (simp add: time_defs)
lemma sql_12: "sqlite_datetime 1704110400000 = ''2024-01-01 12:00:00''"
  by (simp add: time_defs)
lemma sql_235959: "sqlite_datetime 1704153599999 = ''2024-01-01 23:59:59''"
  by (simp add: time_defs)
lemma sql_next: "sqlite_datetime 1704153600000 = ''2024-01-02 00:00:00''"
  by (simp add: time_defs)

lemma createSession_example:
  "createSession example_db ''s-new'' 2 1704103200000 =
     Inr (example_db\<lparr>sessions := example_sessions @
            [\<lparr>session_id = ''s-new'', session_user_id = 2,
              expires_at = ''2024-01-01T11:00:00.000Z'',
              created_at = ''2024-01-01 10:00:00'',
              last_activity = ''2024-01-01 10:00:00''\<rparr>]\<rparr>, ''s-new'')"
  by (simp add: createSession_def Let_def iso_11 sql_10 example_defs)

lemma getSession_admin_1030:
  "getSession example_db ''s-admin'' 1704105000000 =
     Some \<lparr>session_id = ''s-admin'', session_user_id = 1,
            expires_at = ''2024-01-01T11:00:00.000Z'',
            created_at = ''2024-01-01 10:00:00'', last_activity = ''2024-01-01 10:00:00''\<rparr>"
  by (simp add: getSession_def sql_1030 example_db_def example_sessions_def)

lemma getSession_former_1030:
  "getSession example_db ''s-former'' 1704105000000 =
     Some \<lparr>session_id = ''s-former'', session_user_id = 3,
            expires_at = ''2024-01-01T11:00:00.000Z'',
            created_at = ''2024-01-01 10:00:00'', last_activity = ''2024-01-01 10:00:00''\<rparr>"
  by (simp add: getSession_def sql_1030 example_db_def example_sessions_def)

lemma update_admin_1030:
  "updateSessionActivity example_db ''s-admin'' 1704105000000 =
     example_db\<lparr>sessions :=
        [\<lparr>session_id = ''s-admin'', session_user_id = 1,
          expires_at = ''2024-01-01T11:00:00.000Z'',
          created_at = ''2024-01-01 10:00:00'', last_activity = ''2024-01-01 10:30:00''\<rparr>,
         \<lparr>session_id = ''s-former'', session_user_id = 3,
          expires_at = ''2024-01-01T11:00:00.000Z'',
          created_at = ''2024-01-01 10:00:00'', last_activity = ''2024-01-01 10:00:00''\<rparr>]\<rparr>"
  by (simp add: updateSessionActivity_def sql_1030 example_db_def example_sessions_def)

lemma find_admin:
  "find (\<lambda>u. user_id u = 1 \<and> user_status u = ''active'') (users example_db) =
     Some \<lparr>user_id = 1, email = ''admin@agewithcare.com'', user_name = ''System Administrator'',
       password_hash = ''hash:Admin123!'', user_status = ''active'', last_login_at = None\<rparr>"
  by (simp add: example_db_def example_users_def)

lemma getUserFromSession_admin_1030:
  "getUserFromSession example_db ''s-admin'' 1704105000000 =
     (example_db\<lparr>sessions :=
        [\<lparr>session_id = ''s-admin'', session_user_id = 1,
          expires_at = ''2024-01-01T11:00:00.000Z'',
          created_at = ''2024-01-01 10:00:00'', last_activity = ''2024-01-01 10:30:00''\<rparr>,
         \<lparr>session_id = ''s-former'', session_user_id = 3,
          expires_at = ''2024-01-01T11:00:00.000Z'',
          created_at = ''2024-01-01 10:00:00'', last_activity = ''2024-01-01 10:00:00''\<rparr>]\<rparr>,
      Some \<lparr>user_id = 1, email = ''admin@agewithcare.com'', user_name = ''System Administrator'',
       password_hash = ''hash:Admin123!'', user_status = ''active'', last_login_at = None\<rparr>)"
  by (simp add: getUserFromSession_def getSession_admin_1030 find_admin update_admin_1030)

lemma text_less_same_date: "text_less (d @ CHR '' '' # a) (d @ CHR ''T'' # b)"
  by (induction d) simp_all

lemma find_by_key:
  "distinct (map f xs) \<Longrightarrow> x \<in> set xs \<Longrightarrow> P x \<Longrightarrow> find (\<lambda>y. f y = f x \<and> P y) xs = Some x"
proof (induction xs)
  case Nil
  then show ?case by simp
next
  case (Cons y ys)
  show ?case
  proof (cases "y = x")
    case True
    with Cons.prems show ?thesis by simp
  next
    case False
    with Cons.prems have "x \<in> set ys" by simp
    with Cons.prems have "f y \<noteq> f x" by auto
    with Cons \<open>x \<in> set ys\<close> show ?thesis by simp
  qed
qed

text \<open>
  A session whose expiry was written by \<open>createSession\<close> is returned by every lookup
  on the calendar day (UTC) of the expiry, whatever the time of day.
\<close>

lemma getSession_same_day:
  assumes "s \<in> set (sessions db)" "distinct (map session_id (sessions db))"
    and "expires_at s = toISOString e" "date_text now = date_text e"
  shows "getSession db (session_id s) now = Some s"
proof -
  from assms(3,4) have "text_less (sqlite_datetime now) (expires_at s)"
    by (simp add: sqlite_datetime_def toISOString_def text_less_same_date)
  with assms(1,2) show ?thesis
    unfolding getSession_def by (intro find_by_key)
qed

text \<open>
  C3. The claim is that a lookup after the stored expiry returns none. Here the code is run
  on a session created at 10:00:00 UTC on 1 January 2024, whose stored expiry is
  \<open>2024-01-01T11:00:00.000Z\<close>. The lookup at 12:00:00, an hour after the expiry,
  compares that text with \<open>2024-01-01 12:00:00\<close>: the two agree up to the date, and
  then \<open>T\<close> is greater than the space. The session is returned, and is returned
  until the end of the day; the first lookup that returns none is at 00:00:00 of
  2 January.
\<close>

theorem getSession_after_expiry:
  "createSession example_db ''s-new'' 2 1704103200000 =
     Inr (example_db\<lparr>sessions := example_sessions @
            [\<lparr>session_id = ''s-new'', session_user_id = 2,
              expires_at = ''2024-01-01T11:00:00.000Z'',
              created_at = ''2024-01-01 10:00:00'',
              last_activity = ''2024-01-01 10:00:00''\<rparr>]\<rparr>, ''s-new'')
   \<and> sqlite_datetime 1704110400000 = ''2024-01-01 12:00:00''
   \<and> getSession (example_db\<lparr>sessions := example_sessions @
            [\<lparr>session_id = ''s-new'', session_user_id = 2,
              expires_at = ''2024-01-01T11:00:00.000Z'',
              created_at = ''2024-01-01 10:00:00'',
              last_activity = ''2024-01-01 10:00:00''\<rparr>]\<rparr>) ''s-new'' 1704110400000 =
       Some \<lparr>session_id = ''s-new'', session_user_id = 2,
              expires_at = ''2024-01-01T11:00:00.000Z'',
              created_at = ''2024-01-01 10:00:00'',
              last_activity = ''2024-01-01 10:00:00''\<rparr>
   \<and> getSession example_db ''s-admin'' 1704153599999 \<noteq> None
   \<and> getSession example_db ''s-admin'' 1704153600000 = None"
proof (intro conjI)
  show "getSession example_db ''s-admin'' 1704153599999 \<noteq> None"
    by (simp add: getSession_def sql_235959 example_defs)
  show "getSession example_db ''s-admin'' 1704153600000 = None"
    by (simp add: getSession_def sql_next example_defs)
qed (simp_all add: createSession_example getSession_def sql_12 example_sessions_def)

lemma touch_columns:
  "map (\<lambda>s. (session_id s, session_user_id s, expires_at s, created_at s))
       (map (\<lambda>s. if session_id s = i then s\<lparr>last_activity := t\<rparr> else s) xs) =
   map (\<lambda>s. (session_id s, session_user_id s, expires_at s, created_at s)) xs"
  by (induction xs) auto

lemma touch_others:
  "filter (\<lambda>s. session_id s \<noteq> i) (map (\<lambda>s. if session_id s = i then s\<lparr>last_activity := t\<rparr> else s) xs) =
   filter (\<lambda>s. session_id s \<noteq> i) xs"
  by (induction xs) auto

lemma touch_own:
  "map last_activity
       (filter (\<lambda>s. session_id s = i)
          (map (\<lambda>s. if session_id s = i then s\<lparr>last_activity := t\<rparr> else s) xs)) =
   map (\<lambda>s. t) (filter (\<lambda>s. session_id s = i) xs)"
  by (induction xs) auto

lemma getUserFromSession_cases:
  "(snd (getUserFromSession db sessionId now) = None \<and> fst (getUserFromSession db sessionId now) = db)
   \<or> (snd (getUserFromSession db sessionId now) \<noteq> None
       \<and> fst (getUserFromSession db sessionId now) = updateSessionActivity db sessionId now)"
  by (simp add: getUserFromSession_def split: option.splits)

lemma year_2024: "fst (civil_from_days ((1704103200000 + 60 * 60 * 1000) div 86400000)) = 2024"
  by (simp add: time_defs)

lemma year_2025: "fst (civil_from_days ((1735687815250 + 60 * 60 * 1000) div 86400000)) = 2025"
  by (simp add: time_defs)

lemma createSession_new_year:
  "createSession example_db ''s-late'' 2 1735687815250 =
     Inr (example_db\<lparr>sessions := example_sessions @
            [\<lparr>session_id = ''s-late'', session_user_id = 2,
              expires_at = ''2025-01-01T00:30:15.250Z'',
              created_at = ''2024-12-31 23:30:15'',
              last_activity = ''2024-12-31 23:30:15''\<rparr>]\<rparr>, ''s-late'')"
proof -
  have iso: "toISOString 1735691415250 = ''2025-01-01T00:30:15.250Z''" by (simp add: time_defs)
  have sql: "sqlite_datetime 1735687815250 = ''2024-12-31 23:30:15''" by (simp add: time_defs)
  show ?thesis by (simp add: createSession_def Let_def iso sql example_defs)
qed

text \<open>
  C8. The expiry that \<open>createSession\<close> stores reads back as the creation time plus
  exactly one hour (for every expiry in a year up to 9999, where the text has the
  four-digit form); the rest of the store is as before. \<open>updateSessionActivity\<close> and
  \<open>getUserFromSession\<close> leave the id, the user id, the expiry and the creation time
  of every session row as they were, leave every row of another session id untouched,
  \<open>last_activity\<close> included, and leave every other table untouched: what they change
  is the \<open>last_activity\<close> of the rows of the given session id, which
  \<open>updateSessionActivity\<close> sets to the time of the call. (\<open>getSession\<close> returns no
  store at all.)
\<close>

theorem session_expiry_fixed:
  "(createSession db sessionId userId now = Inr (db', sid)
      \<and> fst (civil_from_days ((now + 60 * 60 * 1000) div 86400000)) \<le> 9999
    \<longrightarrow> sid = sessionId
        \<and> db'\<lparr>sessions := sessions db\<rparr> = db
        \<and> (\<exists>row. sessions db' = sessions db @ [row]
               \<and> session_id row = sessionId \<and> session_user_id row = userId
               \<and> iso_millis (expires_at row) = Some (now + 60 * 60 * 1000)))
   \<and> map (\<lambda>s. (session_id s, session_user_id s, expires_at s, created_at s))
         (sessions (updateSessionActivity db sessionId now)) =
       map (\<lambda>s. (session_id s, session_user_id s, expires_at s, created_at s)) (sessions db)
   \<and> filter (\<lambda>s. session_id s \<noteq> sessionId) (sessions (updateSessionActivity db sessionId now)) =
       filter (\<lambda>s. session_id s \<noteq> sessionId) (sessions db)
   \<and> map last_activity
         (filter (\<lambda>s. session_id s = sessionId) (sessions (updateSessionActivity db sessionId now))) =
       map (\<lambda>s. sqlite_datetime now) (filter (\<lambda>s. session_id s = sessionId) (sessions db))
   \<and> (updateSessionActivity db sessionId now)\<lparr>sessions := sessions db\<rparr> = db
   \<and> map (\<lambda>s. (session_id s, session_user_id s, expires_at s, created_at s))
         (sessions (fst (getUserFromSession db sessionId now))) =
       map (\<lambda>s. (session_id s, session_user_id s, expires_at s, created_at s)) (sessions db)
   \<and> filter (\<lambda>s. session_id s \<noteq> sessionId) (sessions (fst (getUserFromSession db sessionId now))) =
       filter (\<lambda>s. session_id s \<noteq> sessionId) (sessions db)
   \<and> (fst (getUserFromSession db sessionId now))\<lparr>sessions := sessions db\<rparr> = db
   \<and> (snd (getUserFromSession db sessionId now) = None
        \<longrightarrow> fst (getUserFromSession db sessionId now) = db)"
proof -
  have create: "sid = sessionId
        \<and> db'\<lparr>sessions := sessions db\<rparr> = db
        \<and> (\<exists>row. sessions db' = sessions db @ [row]
               \<and> session_id row = sessionId \<and> session_user_id row = userId
               \<and> iso_millis (expires_at row) = Some (now + 60 * 60 * 1000))"
    if made: "createSession db sessionId userId now = Inr (db', sid)"
      and year: "fst (civil_from_days ((now + 60 * 60 * 1000) div 86400000)) \<le> 9999"
  proof -
    let ?row = "\<lparr>session_id = sessionId, session_user_id = userId,
              expires_at = toISOString (now + 60 * 60 * 1000),
              created_at = sqlite_datetime now, last_activity = sqlite_datetime now\<rparr>"
    from made have sid: "sid = sessionId" and db': "db' = db\<lparr>sessions := sessions db @ [?row]\<rparr>"
      by (auto simp: createSession_def Let_def split: if_splits)
    from year have decoded: "iso_millis (expires_at ?row) = Some (now + 60 * 60 * 1000)"
      using iso_millis_toISOString [of "now + 60 * 60 * 1000"] by simp
    have "sessions db' = sessions db @ [?row] \<and> session_id ?row = sessionId
        \<and> session_user_id ?row = userId \<and> iso_millis (expires_at ?row) = Some (now + 60 * 60 * 1000)"
      using db' decoded by simp
    then have "\<exists>row. sessions db' = sessions db @ [row]
               \<and> session_id row = sessionId \<and> session_user_id row = userId
               \<and> iso_millis (expires_at row) = Some (now + 60 * 60 * 1000)" by (rule exI)
    moreover from db' have "db'\<lparr>sessions := sessions db\<rparr> = db" by simp
    ultimately show ?thesis using sid by simp
  qed
  have upd_cols: "map (\<lambda>s. (session_id s, session_user_id s, expires_at s, created_at s))
         (sessions (updateSessionActivity db sessionId now)) =
       map (\<lambda>s. (session_id s, session_user_id s, expires_at s, created_at s)) (sessions db)"
    by (simp add: updateSessionActivity_def touch_columns del: map_map)
  have upd_others: "filter (\<lambda>s. session_id s \<noteq> sessionId) (sessions (updateSessionActivity db sessionId now)) =
       filter (\<lambda>s. session_id s \<noteq> sessionId) (sessions db)"
    by (simp add: updateSessionActivity_def touch_others)
  have upd_own: "map last_activity
         (filter (\<lambda>s. session_id s = sessionId) (sessions (updateSessionActivity db sessionId now))) =
       map (\<lambda>s. sqlite_datetime now) (filter (\<lambda>s. session_id s = sessionId) (sessions db))"
    by (simp add: updateSessionActivity_def touch_own)
  have upd_rest: "(updateSessionActivity db sessionId now)\<lparr>sessions := sessions db\<rparr> = db"
    by (simp add: updateSessionActivity_def)
  note alt = getUserFromSession_cases [of db sessionId now]
  from alt upd_cols have get_cols:
    "map (\<lambda>s. (session_id s, session_user_id s, expires_at s, created_at s))
         (sessions (fst (getUserFromSession db sessionId now))) =
       map (\<lambda>s. (session_id s, session_user_id s, expires_at s, created_at s)) (sessions db)"
    by auto
  from alt upd_others have get_others:
    "filter (\<lambda>s. session_id s \<noteq> sessionId) (sessions (fst (getUserFromSession db sessionId now))) =
       filter (\<lambda>s. session_id s \<noteq> sessionId) (sessions db)"
    by auto
  from alt upd_rest have get_rest:
    "(fst (getUserFromSession db sessionId now))\<lparr>sessions := sessions db\<rparr> = db"
    by auto
  from alt have get_none: "snd (getUserFromSession db sessionId now) = None
        \<longrightarrow> fst (getUserFromSession db sessionId now) = db"
    by auto
  have create_imp: "createSession db sessionId userId now = Inr (db', sid)
      \<and> fst (civil_from_days ((now + 60 * 60 * 1000) div 86400000)) \<le> 9999
    \<longrightarrow> sid = sessionId
        \<and> db'\<lparr>sessions := sessions db\<rparr> = db
        \<and> (\<exists>row. sessions db' = sessions db @ [row]
               \<and> session_id row = sessionId \<and> session_user_id row = userId
               \<and> iso_millis (expires_at row) = Some (now + 60 * 60 * 1000))"
  proof (intro impI, elim conjE)
    assume "createSession db sessionId userId now = Inr (db', sid)"
      and "fst (civil_from_days ((now + 60 * 60 * 1000) div 86400000)) \<le> 9999"
    then show "sid = sessionId
        \<and> db'\<lparr>sessions := sessions db\<rparr> = db
        \<and> (\<exists>row. sessions db' = sessions db @ [row]
               \<and> session_id row = sessionId \<and> session_user_id row = userId
               \<and> iso_millis (expires_at row) = Some (now + 60 * 60 * 1000))"
      by (rule create)
  qed
  from create_imp upd_cols upd_others upd_own upd_rest get_cols get_others get_rest get_none
  show ?thesis by (intro conjI)
qed

theorem session_expiry_fixed_witness:
  "createSession example_db ''s-new'' 2 1704103200000 =
     Inr (example_db\<lparr>sessions := example_sessions @
            [\<lparr>session_id = ''s-new'', session_user_id = 2,
              expires_at = ''2024-01-01T11:00:00.000Z'',
              created_at = ''2024-01-01 10:00:00'',
              last_activity = ''2024-01-01 10:00:00''\<rparr>]\<rparr>, ''s-new'')
   \<and> fst (civil_from_days ((1704103200000 + 60 * 60 * 1000) div 86400000)) = 2024
   \<and> iso_millis ''2024-01-01T11:00:00.000Z'' = Some (1704103200000 + 60 * 60 * 1000)
   \<and> createSession example_db ''s-late'' 2 1735687815250 =
     Inr (example_db\<lparr>sessions := example_sessions @
            [\<lparr>session_id = ''s-late'', session_user_id = 2,
              expires_at = ''2025-01-01T00:30:15.250Z'',
              created_at = ''2024-12-31 23:30:15'',
              last_activity = ''2024-12-31 23:30:15''\<rparr>]\<rparr>, ''s-late'')
   \<and> iso_millis ''2025-01-01T00:30:15.250Z'' = Some (1735687815250 + 60 * 60 * 1000)
   \<and> map expires_at (sessions (fst (getUserFromSession example_db ''s-admin'' 1704105000000))) =
       [''2024-01-01T11:00:00.000Z'', ''2024-01-01T11:00:00.000Z'']
   \<and> map last_activity (sessions (fst (getUserFromSession example_db ''s-admin'' 1704105000000))) =
       [''2024-01-01 10:30:00'', ''2024-01-01 10:00:00'']"
proof -
  let ?row = "\<lparr>session_id = ''s-new'', session_user_id = 2,
              expires_at = ''2024-01-01T11:00:00.000Z'',
              created_at = ''2024-01-01 10:00:00'',
              last_activity = ''2024-01-01 10:00:00''\<rparr>"
  let ?db1 = "example_db\<lparr>sessions := example_sessions @ [?row]\<rparr>"
  let ?late = "\<lparr>session_id = ''s-late'', session_user_id = 2,
              expires_at = ''2025-01-01T00:30:15.250Z'',
              created_at = ''2024-12-31 23:30:15'',
              last_activity = ''2024-12-31 23:30:15''\<rparr>"
  let ?db2 = "example_db\<lparr>sessions := example_sessions @ [?late]\<rparr>"
  note created = createSession_example
  have pre1: "createSession example_db ''s-new'' 2 1704103200000 = Inr (?db1, ''s-new'')
      \<and> fst (civil_from_days ((1704103200000 + 60 * 60 * 1000) div 86400000)) \<le> 9999"
    using created year_2024 by simp
  from session_expiry_fixed [of example_db "''s-new''" 2 1704103200000 ?db1 "''s-new''",
      THEN conjunct1, THEN mp, OF pre1]
  obtain row where row: "sessions ?db1 = sessions example_db @ [row]"
    and decoded: "iso_millis (expires_at row) = Some (1704103200000 + 60 * 60 * 1000)" by blast
  from row have "row = ?row" by (simp add: example_db_def)
  with decoded have iso1: "iso_millis ''2024-01-01T11:00:00.000Z'' = Some (1704103200000 + 60 * 60 * 1000)"
    by simp
  have pre2: "createSession example_db ''s-late'' 2 1735687815250 = Inr (?db2, ''s-late'')
      \<and> fst (civil_from_days ((1735687815250 + 60 * 60 * 1000) div 86400000)) \<le> 9999"
    using createSession_new_year year_2025 by simp
  from session_expiry_fixed [of example_db "''s-late''" 2 1735687815250 ?db2 "''s-late''",
      THEN conjunct1, THEN mp, OF pre2]
  obtain late where late: "sessions ?db2 = sessions example_db @ [late]"
    and decoded2: "iso_millis (expires_at late) = Some (1735687815250 + 60 * 60 * 1000)" by blast
  from late have "late = ?late" by (simp add: example_db_def)
  with decoded2 have iso2: "iso_millis ''2025-01-01T00:30:15.250Z'' = Some (1735687815250 + 60 * 60 * 1000)"
    by simp
  have kept: "map expires_at (sessions (fst (getUserFromSession example_db ''s-admin'' 1704105000000))) =
       [''2024-01-01T11:00:00.000Z'', ''2024-01-01T11:00:00.000Z'']"
    by (simp add: getUserFromSession_admin_1030)
  have touched: "map last_activity (sessions (fst (getUserFromSession example_db ''s-admin'' 1704105000000))) =
       [''2024-01-01 10:30:00'', ''2024-01-01 10:00:00'']"
    by (simp add: getUserFromSession_admin_1030)
  from created year_2024 iso1 createSession_new_year iso2 kept touched
  show ?thesis by (intro conjI)
qed

text \<open>
  C9. When the session row exists and has not expired (\<open>getSession\<close> returns it) but no
  user row with the session's user id has the status \<open>active\<close>,
  \<open>getUserFromSession\<close> returns null and leaves the store, the session's
  \<open>last_activity\<close> included, as it was.
\<close>

theorem getUserFromSession_inactive:
  "getSession db sessionId now = Some s
   \<and> (\<forall>u \<in> set (users db). user_id u = session_user_id s \<longrightarrow> user_status u \<noteq> ''active'')
   \<longrightarrow> getUserFromSession db sessionId now = (db, None)"
proof (intro impI, elim conjE)
  assume live: "getSession db sessionId now = Some s"
    and inactive: "\<forall>u \<in> set (users db).
      user_id u = session_user_id s \<longrightarrow> user_status u \<noteq> ''active''"
  from inactive
  have "find (\<lambda>u. user_id u = session_user_id s \<and> user_status u = ''active'') (users db) = None"
    by (auto simp: find_None_iff)
  with live show "getUserFromSession db sessionId now = (db, None)"
    by (simp add: getUserFromSession_def)
qed

theorem getUserFromSession_inactive_witness:
  "getSession example_db ''s-former'' 1704105000000 =
     Some \<lparr>session_id = ''s-former'', session_user_id = 3,
            expires_at = ''2024-01-01T11:00:00.000Z'',
            created_at = ''2024-01-01 10:00:00'', last_activity = ''2024-01-01 10:00:00''\<rparr>
   \<and> map user_status (filter (\<lambda>u. user_id u = 3) (users example_db)) = [''suspended'']
   \<and> getUserFromSession example_db ''s-former'' 1704105000000 = (example_db, None)"
proof -
  let ?s = "\<lparr>session_id = ''s-former'', session_user_id = 3,
            expires_at = ''2024-01-01T11:00:00.000Z'',
            created_at = ''2024-01-01 10:00:00'', last_activity = ''2024-01-01 10:00:00''\<rparr>"
  have inactive: "\<forall>u \<in> set (users example_db).
      user_id u = session_user_id ?s \<longrightarrow> user_status u \<noteq> ''active''"
    by (simp add: example_db_def example_users_def)
  have vis: "map user_status (filter (\<lambda>u. user_id u = 3) (users example_db)) = [''suspended'']"
    by (simp add: example_db_def example_users_def)
  from getSession_former_1030 inactive
    getUserFromSession_inactive [of example_db "''s-former''" 1704105000000 ?s]
  have "getUserFromSession example_db ''s-former'' 1704105000000 = (example_db, None)"
    by blast
  with getSession_former_1030 vis show ?thesis by blast
qed

subsection \<open>The login handler\<close>

lemma login_missing:
  "email_field = None \<or> email_field = Some [] \<or> password_field = None \<or> password_field = Some []
   \<Longrightarrow> login verify db email_field password_field ip ua newSessionId now =
         (db, json_error ''Email and password are required'' 400)"
  by (auto simp: login_def split: option.splits)

lemma login_invalid:
  assumes "em \<noteq> []" "pw \<noteq> []"
    and "\<forall>u \<in> set (users db). email u = em \<and> user_status u = ''active'' \<longrightarrow> \<not> verify pw (password_hash u)"
  shows "login verify db (Some em) (Some pw) ip ua newSessionId now =
         (db, json_error ''Invalid email or password'' 401)"
proof (cases "find (\<lambda>u. email u = em \<and> user_status u = ''active'') (users db)")
  case None
  with assms(1,2) show ?thesis by (simp add: login_def)
next
  case (Some u)
  then have "u \<in> set (users db)" "email u = em \<and> user_status u = ''active''"
    by (auto simp: find_Some_iff)
  with assms(3) have "\<not> verify pw (password_hash u)" by blast
  with Some assms(1,2) show ?thesis by (simp add: login_def)
qed

lemma login_success:
  assumes "em \<noteq> []" "pw \<noteq> []"
    and u: "u \<in> set (users db)" "email u = em" "user_status u = ''active''"
    and uniq: "distinct (map email (users db))"
    and pw: "verify pw (password_hash u)"
    and fresh: "newSessionId \<notin> session_id ` set (sessions db)"
  shows "login verify db (Some em) (Some pw) ip ua newSessionId now =
     (db\<lparr>sessions := sessions db @
            [\<lparr>session_id = newSessionId, session_user_id = user_id u,
              expires_at = toISOString (now + 60 * 60 * 1000),
              created_at = sqlite_datetime now, last_activity = sqlite_datetime now\<rparr>],
         users := map (\<lambda>v. if user_id v = user_id u
                             then v\<lparr>last_login_at := Some (sqlite_datetime now)\<rparr> else v)
                      (users db),
         audit_logs := audit_logs db @
            [\<lparr>actor_id = Some (user_id u), action = ''login'', object_type = ''user'',
              object_id = Some (user_id u), changes = login_changes,
              ip_address = or_unknown ip, user_agent = or_unknown ua\<rparr>]\<rparr>,
      \<lparr>resp_status = 302, resp_error = None, resp_location = Some ''/'',
        resp_cookie = Some \<lparr>cookie_name = ''session_id'', cookie_value = newSessionId,
                             cookie_path = ''/'', cookie_httpOnly = True, cookie_secure = True,
                             cookie_sameSite = ''Lax'', cookie_maxAge = 3600\<rparr>\<rparr>)"
proof -
  from find_by_key [OF uniq u(1), of "\<lambda>x. user_status x = ''active''"] u(2,3)
  have found: "find (\<lambda>x. email x = em \<and> user_status x = ''active'') (users db) = Some u"
    by simp
  from u(1) have known: "user_id u \<in> user_id ` set (users db)" by simp
  let ?touch = "\<lambda>v. if user_id v = user_id u
                    then v\<lparr>last_login_at := Some (sqlite_datetime now)\<rparr> else v"
  have known': "user_id u \<in> user_id ` set (map ?touch (users db))"
  proof -
    from u(1) have "?touch u \<in> set (map ?touch (users db))" by (simp only: set_map) (rule imageI)
    then have "user_id (?touch u) \<in> user_id ` set (map ?touch (users db))" by (rule imageI)
    moreover have "user_id (?touch u) = user_id u" by simp
    ultimately show ?thesis by (simp only:)
  qed
  from known fresh have created: "createSession db newSessionId (user_id u) now =
      Inr (db\<lparr>sessions := sessions db @
            [\<lparr>session_id = newSessionId, session_user_id = user_id u,
              expires_at = toISOString (now + 60 * 60 * 1000),
              created_at = sqlite_datetime now, last_activity = sqlite_datetime now\<rparr>]\<rparr>,
           newSessionId)"
    by (simp add: createSession_def Let_def)
  show ?thesis
    using assms(1,2) pw known'
    by (simp add: login_def found created logAudit_def Let_def del: set_map)
qed

text \<open>
  C5, amended. \<open>POST /api/auth/login\<close> answers a request whose email or password is
  missing or empty with 400, and a request whose email is that of no active user, or whose
  password the hash comparison rejects, with 401; in both cases no cookie is set and the
  store is unchanged. A request with the email and the password of an active user, when
  the session identifier drawn is not yet in use, is answered with a redirect (302) to
  \<open>/\<close> that sets the cookie \<open>session_id\<close> to the identifier of the session created.
\<close>

theorem login_responses:
  "((email_field = None \<or> email_field = Some [] \<or> password_field = None \<or> password_field = Some [])
      \<longrightarrow> login verify db email_field password_field ip ua newSessionId now =
            (db, \<lparr>resp_status = 400, resp_error = Some ''Email and password are required'',
                  resp_location = None, resp_cookie = None\<rparr>))
   \<and> (em \<noteq> [] \<and> pw \<noteq> []
        \<and> (\<forall>u \<in> set (users db). email u = em \<and> user_status u = ''active''
               \<longrightarrow> \<not> verify pw (password_hash u))
      \<longrightarrow> login verify db (Some em) (Some pw) ip ua newSessionId now =
            (db, \<lparr>resp_status = 401, resp_error = Some ''Invalid email or password'',
                  resp_location = None, resp_cookie = None\<rparr>))
   \<and> (em \<noteq> [] \<and> pw \<noteq> []
        \<and> u \<in> set (users db) \<and> email u = em \<and> user_status u = ''active''
        \<and> distinct (map email (users db))
        \<and> verify pw (password_hash u)
        \<and> newSessionId \<notin> session_id ` set (sessions db)
      \<longrightarrow> login verify db (Some em) (Some pw) ip ua newSessionId now =
            (db\<lparr>sessions := sessions db @
                   [\<lparr>session_id = newSessionId, session_user_id = user_id u,
                     expires_at = toISOString (now + 60 * 60 * 1000),
                     created_at = sqlite_datetime now, last_activity = sqlite_datetime now\<rparr>],
                users := map (\<lambda>v. if user_id v = user_id u
                                    then v\<lparr>last_login_at := Some (sqlite_datetime now)\<rparr> else v)
                             (users db),
                audit_logs := audit_logs db @
                   [\<lparr>actor_id = Some (user_id u), action = ''login'', object_type = ''user'',
                     object_id = Some (user_id u), changes = login_changes,
                     ip_address = or_unknown ip, user_agent = or_unknown ua\<rparr>]\<rparr>,
             \<lparr>resp_status = 302, resp_error = None, resp_location = Some ''/'',
               resp_cookie = Some \<lparr>cookie_name = ''session_id'', cookie_value = newSessionId,
                                    cookie_path = ''/'', cookie_httpOnly = True,
                                    cookie_secure = True, cookie_sameSite = ''Lax'',
                                    cookie_maxAge = 3600\<rparr>\<rparr>))"
proof (intro conjI impI)
  assume "email_field = None \<or> email_field = Some [] \<or> password_field = None \<or> password_field = Some []"
  then show "login verify db email_field password_field ip ua newSessionId now =
            (db, \<lparr>resp_status = 400, resp_error = Some ''Email and password are required'',
                  resp_location = None, resp_cookie = None\<rparr>)"
    using login_missing [of email_field password_field verify db ip ua newSessionId now]
    by (simp add: json_error_def)
next
  assume h: "em \<noteq> [] \<and> pw \<noteq> []
        \<and> (\<forall>u \<in> set (users db). email u = em \<and> user_status u = ''active''
               \<longrightarrow> \<not> verify pw (password_hash u))"
  then have "em \<noteq> []" "pw \<noteq> []"
    "\<forall>u \<in> set (users db). email u = em \<and> user_status u = ''active''
               \<longrightarrow> \<not> verify pw (password_hash u)" by blast+
  from login_invalid [where verify = verify and em = em and pw = pw and db = db, OF this] show "login verify db (Some em) (Some pw) ip ua newSessionId now =
            (db, \<lparr>resp_status = 401, resp_error = Some ''Invalid email or password'',
                  resp_location = None, resp_cookie = None\<rparr>)"
    by (simp add: json_error_def)
next
  assume h: "em \<noteq> [] \<and> pw \<noteq> []
        \<and> u \<in> set (users db) \<and> email u = em \<and> user_status u = ''active''
        \<and> distinct (map email (users db))
        \<and> verify pw (password_hash u)
        \<and> newSessionId \<notin> session_id ` set (sessions db)"
  then have "em \<noteq> []" "pw \<noteq> []" "u \<in> set (users db)" "email u = em"
    "user_status u = ''active''" "distinct (map email (users db))"
    "verify pw (password_hash u)" "newSessionId \<notin> session_id ` set (sessions db)" by blast+
  then show "login verify db (Some em) (Some pw) ip ua newSessionId now =
            (db\<lparr>sessions := sessions db @
                   [\<lparr>session_id = newSessionId, session_user_id = user_id u,
                     expires_at = toISOString (now + 60 * 60 * 1000),
                     created_at = sqlite_datetime now, last_activity = sqlite_datetime now\<rparr>],
                users := map (\<lambda>v. if user_id v = user_id u
                                    then v\<lparr>last_login_at := Some (sqlite_datetime now)\<rparr> else v)
                             (users db),
                audit_logs := audit_logs db @
                   [\<lparr>actor_id = Some (user_id u), action = ''login'', object_type = ''user'',
                     object_id = Some (user_id u), changes = login_changes,
                     ip_address = or_unknown ip, user_agent = or_unknown ua\<rparr>]\<rparr>,
             \<lparr>resp_status = 302, resp_error = None, resp_location = Some ''/'',
               resp_cookie = Some \<lparr>cookie_name = ''session_id'', cookie_value = newSessionId,
                                    cookie_path = ''/'', cookie_httpOnly = True,
                                    cookie_secure = True, cookie_sameSite = ''Lax'',
                                    cookie_maxAge = 3600\<rparr>\<rparr>)"
    by (rule login_success)
qed

theorem login_responses_witness:
  "login example_verify example_db (Some ''admin@agewithcare.com'') (Some '''') None None
         ''s-new'' 1704103200000 =
     (example_db, \<lparr>resp_status = 400, resp_error = Some ''Email and password are required'',
                    resp_location = None, resp_cookie = None\<rparr>)
   \<and> login example_verify example_db (Some ''admin@agewithcare.com'') (Some ''guess'') None None
         ''s-new'' 1704103200000 =
     (example_db, \<lparr>resp_status = 401, resp_error = Some ''Invalid email or password'',
                    resp_location = None, resp_cookie = None\<rparr>)
   \<and> login example_verify example_db (Some ''former@agewithcare.com'') (Some ''former'') None None
         ''s-new'' 1704103200000 =
     (example_db, \<lparr>resp_status = 401, resp_error = Some ''Invalid email or password'',
                    resp_location = None, resp_cookie = None\<rparr>)
   \<and> resp_status (snd (login example_verify example_db (Some ''admin@agewithcare.com'')
         (Some ''Admin123!'') None None ''s-new'' 1704103200000)) = 302
   \<and> map_option cookie_value (resp_cookie (snd (login example_verify example_db
         (Some ''admin@agewithcare.com'') (Some ''Admin123!'') None None ''s-new'' 1704103200000)))
       = Some ''s-new''
   \<and> map session_id (sessions (fst (login example_verify example_db
         (Some ''admin@agewithcare.com'') (Some ''Admin123!'') None None ''s-new'' 1704103200000)))
       = [''s-admin'', ''s-former'', ''s-new'']"
proof -
  let ?admin = "\<lparr>user_id = 1, email = ''admin@agewithcare.com'', user_name = ''System Administrator'',
       password_hash = ''hash:Admin123!'', user_status = ''active'', last_login_at = None\<rparr>"
  note inst = login_responses [where verify = example_verify and db = example_db
      and ip = None and ua = None and newSessionId = "''s-new''" and now = 1704103200000]
  have missing: "login example_verify example_db (Some ''admin@agewithcare.com'') (Some '''') None None
         ''s-new'' 1704103200000 =
     (example_db, \<lparr>resp_status = 400, resp_error = Some ''Email and password are required'',
                    resp_location = None, resp_cookie = None\<rparr>)"
    using inst [where email_field = "Some ''admin@agewithcare.com''" and password_field = "Some ''''",
        THEN conjunct1] by simp
  have wrong: "login example_verify example_db (Some ''admin@agewithcare.com'') (Some ''guess'') None None
         ''s-new'' 1704103200000 =
     (example_db, \<lparr>resp_status = 401, resp_error = Some ''Invalid email or password'',
                    resp_location = None, resp_cookie = None\<rparr>)"
    using inst [where em = "''admin@agewithcare.com''" and pw = "''guess''",
        THEN conjunct2, THEN conjunct1]
    by (simp add: example_db_def example_users_def example_verify_def)
  have inactive: "login example_verify example_db (Some ''former@agewithcare.com'') (Some ''former'') None None
         ''s-new'' 1704103200000 =
     (example_db, \<lparr>resp_status = 401, resp_error = Some ''Invalid email or password'',
                    resp_location = None, resp_cookie = None\<rparr>)"
    using inst [where em = "''former@agewithcare.com''" and pw = "''former''",
        THEN conjunct2, THEN conjunct1]
    by (simp add: example_db_def example_users_def example_verify_def)
  have pre: "''admin@agewithcare.com'' \<noteq> [] \<and> ''Admin123!'' \<noteq> []
        \<and> ?admin \<in> set (users example_db) \<and> email ?admin = ''admin@agewithcare.com''
        \<and> user_status ?admin = ''active''
        \<and> distinct (map email (users example_db))
        \<and> example_verify ''Admin123!'' (password_hash ?admin)
        \<and> ''s-new'' \<notin> session_id ` set (sessions example_db)"
    by (simp add: example_db_def example_users_def example_sessions_def example_verify_def)
  note ok = inst [where em = "''admin@agewithcare.com''" and pw = "''Admin123!''" and u = ?admin,
        THEN conjunct2, THEN conjunct2, THEN mp, OF pre]
  have status: "resp_status (snd (login example_verify example_db (Some ''admin@agewithcare.com'')
         (Some ''Admin123!'') None None ''s-new'' 1704103200000)) = 302"
    by (simp add: ok)
  have cookie: "map_option cookie_value (resp_cookie (snd (login example_verify example_db
         (Some ''admin@agewithcare.com'') (Some ''Admin123!'') None None ''s-new'' 1704103200000)))
       = Some ''s-new''"
    by (simp add: ok)
  have stored: "map session_id (sessions (fst (login example_verify example_db
         (Some ''admin@agewithcare.com'') (Some ''Admin123!'') None None ''s-new'' 1704103200000)))
       = [''s-admin'', ''s-former'', ''s-new'']"
    by (simp add: ok) (simp add: example_db_def example_sessions_def)
  from missing wrong inactive status cookie stored show ?thesis by (intro conjI)
qed

text \<open>
  C5 as stated does not hold: a request with missing credentials (here no password) is
  answered with 400, not with 401.
\<close>

theorem login_missing_password_400:
  "resp_status (snd (login example_verify example_db (Some ''admin@agewithcare.com'') None
                       None None ''s-new'' 1704103200000)) = 400"
  by (simp add: login_def json_error_def)

subsection \<open>Slugs\<close>

lemma replace_runs_set:
  "x \<in> set (replace_runs P s) \<Longrightarrow> x = 45 \<or> (x \<in> set s \<and> \<not> P x)"
proof (induction P s rule: replace_runs.induct)
  case (1 P)
  then show ?case by simp
next
  case (2 P c cs)
  show ?case
  proof (cases "P c")
    case True
    with "2.prems" have "x = 45 \<or> x \<in> set (replace_runs P (dropWhile P cs))"
      by simp
    then show ?thesis
    proof
      assume "x = 45"
      then show ?thesis by simp
    next
      assume "x \<in> set (replace_runs P (dropWhile P cs))"
      from "2.IH"(1) [OF True this]
      have "x = 45 \<or> (x \<in> set (dropWhile P cs) \<and> \<not> P x)" .
      then show ?thesis by (auto dest: set_dropWhileD)
    qed
  next
    case False
    with "2.prems" have "x = c \<or> x \<in> set (replace_runs P cs)" by simp
    then show ?thesis
    proof
      assume "x = c"
      with False show ?thesis by simp
    next
      assume "x \<in> set (replace_runs P cs)"
      from "2.IH"(2) [OF False this] show ?thesis by auto
    qed
  qed
qed

lemma dropWhile_none: "\<forall>c \<in> set xs. \<not> P c \<Longrightarrow> dropWhile P xs = xs"
  by (cases xs) simp_all

lemma trim_no_space:
  assumes "\<forall>c \<in> set s. \<not> is_space c"
  shows "trim s = s"
proof -
  from assms have "dropWhile is_space s = s" by (rule dropWhile_none)
  moreover from assms have "dropWhile is_space (rev s) = rev s"
    by (intro dropWhile_none) simp
  ultimately show ?thesis by (simp add: trim_def)
qed

lemmas slug_defs = generateSlug_def trim_def toLowerCase_def js_text_def is_word_def
  is_space_def example_table_def

text \<open>
  Titles with characters outside ASCII: a no-break space is whitespace and becomes a
  hyphen, an accented letter is removed, the Kelvin sign and the dotted capital I leave
  the ASCII letter of their lower-case form.
\<close>

lemma generateSlug_no_break_space:
  "generateSlug example_table (js_text ''Aged'' @ [160] @ js_text ''Care'') = js_text ''aged-care''"
  by (simp add: slug_defs)

lemma generateSlug_accent:
  "generateSlug example_table (js_text ''Caf'' @ [201] @ js_text '' Menu'') = js_text ''caf-menu''"
  by (simp add: slug_defs)

lemma generateSlug_kelvin:
  "generateSlug example_table ([8490] @ js_text ''elvin '' @ [304] @ js_text ''x'') =
     js_text ''kelvin-ix''"
  by (simp add: slug_defs)

text \<open>
  C6, amended. For every title, \<open>generateSlug\<close> lower-cases the title, removes every
  character that is neither a word character nor whitespace nor a hyphen, turns each
  whitespace run into one hyphen and then each run of hyphens into one hyphen (the final
  \<open>trim\<close> finds no whitespace left to remove); in particular the slug of
  \<open>Consumer Rights Policy\<close> is \<open>consumer-rights-policy\<close>. This holds whatever the case
  mapping does outside ASCII.
\<close>

theorem generateSlug_steps:
  "generateSlug table title_text =
     replace_runs (\<lambda>u. u = 45)
       (replace_runs is_space
          (filter (\<lambda>u. is_word u \<or> is_space u \<or> u = 45) (toLowerCase table title_text)))
   \<and> generateSlug table (js_text ''Consumer Rights Policy'') = js_text ''consumer-rights-policy''"
proof
  let ?kept = "filter (\<lambda>u. is_word u \<or> is_space u \<or> u = 45) (toLowerCase table title_text)"
  have hyphen: "\<not> is_space 45" by (simp add: is_space_def)
  have inner: "\<not> is_space x" if "x \<in> set (replace_runs is_space ?kept)" for x
    using replace_runs_set [OF that] hyphen by blast
  have outer: "\<not> is_space x"
    if "x \<in> set (replace_runs (\<lambda>u. u = 45) (replace_runs is_space ?kept))" for x
    using replace_runs_set [OF that] inner hyphen by blast
  then have "\<forall>c \<in> set (replace_runs (\<lambda>u. u = 45) (replace_runs is_space ?kept)).
      \<not> is_space c" by blast
  then show "generateSlug table title_text = replace_runs (\<lambda>u. u = 45) (replace_runs is_space ?kept)"
    unfolding generateSlug_def by (rule trim_no_space)
  show "generateSlug table (js_text ''Consumer Rights Policy'') = js_text ''consumer-rights-policy''"
    by (simp add: slug_defs)
qed

text \<open>
  C6 as stated does not hold: on the title \<open>Self-Care - Policy\<close> the three steps of
  the claim give \<open>selfcare-policy\<close> when the hyphen is stripped as a non-word
  character and \<open>self-care---policy\<close> when it is kept; the code gives
  \<open>self-care-policy\<close>.
\<close>

theorem generateSlug_differs_from_spec:
  "generateSlug example_table (js_text ''Self-Care - Policy'') = js_text ''self-care-policy''
   \<and> spec_generateSlug_strict example_table (js_text ''Self-Care - Policy'') =
       js_text ''selfcare-policy''
   \<and> spec_generateSlug_lenient example_table (js_text ''Self-Care - Policy'') =
       js_text ''self-care---policy''"
  by (simp add: slug_defs spec_generateSlug_strict_def spec_generateSlug_lenient_def)

subsection \<open>Search\<close>

lemma set_insert_by: "set (insert_by le x xs) = insert x (set xs)"
  by (induction xs) auto

lemma length_insert_by: "length (insert_by le x xs) = Suc (length xs)"
  by (induction xs) auto

lemma set_sort_by: "set (sort_by le xs) = set xs"
  unfolding sort_by_def by (induction xs) (simp_all add: set_insert_by)

lemma length_sort_by: "length (sort_by le xs) = length xs"
  unfolding sort_by_def by (induction xs) (simp_all add: length_insert_by)

lemma set_order_rows: "set (order_rows rules k rows) = set rows"
  by (simp add: order_rows_def set_sort_by)

lemma row_document_joined: "r \<in> set (joined_rows db d) \<Longrightarrow> row_document r = d"
  by (auto simp: joined_rows_def)

lemma left_matches_not_Nil: "left_matches P ys \<noteq> []"
  by (simp add: left_matches_def split: list.splits)

lemma joined_rows_not_Nil: "joined_rows db d \<noteq> []"
proof -
  obtain c cs where c: "left_matches (\<lambda>c. cat_id c = category_id d) (categories db) = c # cs"
    using left_matches_not_Nil by (metis list.exhaust)
  obtain u us where u: "left_matches (\<lambda>u. user_id u = owner_id d) (users db) = u # us"
    using left_matches_not_Nil by (metis list.exhaust)
  show ?thesis by (simp add: joined_rows_def c u)
qed

lemma set_distinct_rows: "set (distinct_rows xs) = set xs"
  by (induction xs rule: distinct_rows.induct) auto

lemma set_search_matches:
  "set (search_matches rules db options) =
     (\<Union>d \<in> {d \<in> set (documents db). search_where rules db options d}. set (joined_rows db d))"
  by (auto simp: search_matches_def set_order_rows set_distinct_rows)

lemma documents_of_matches:
  "row_document ` set (search_matches rules db options) =
     {d \<in> set (documents db). search_where rules db options d}"
proof (intro equalityI subsetI)
  fix d assume "d \<in> row_document ` set (search_matches rules db options)"
  then obtain r where "r \<in> set (search_matches rules db options)" "d = row_document r" by blast
  then show "d \<in> {d \<in> set (documents db). search_where rules db options d}"
    by (auto simp: set_search_matches dest: row_document_joined)
next
  fix d assume d: "d \<in> {d \<in> set (documents db). search_where rules db options d}"
  obtain r where r: "r \<in> set (joined_rows db d)"
    using joined_rows_not_Nil [of db d] by (cases "joined_rows db d") auto
  with d have "r \<in> set (search_matches rules db options)" by (auto simp: set_search_matches)
  moreover from r have "row_document r = d" by (rule row_document_joined)
  ultimately show "d \<in> row_document ` set (search_matches rules db options)" by force
qed

lemma set_limit_offset: "set (limit_offset lim off rows) \<subseteq> set rows"
  by (auto simp: limit_offset_def dest: in_set_dropD in_set_takeD)

lemma bound_integer_Some: "bound_integer rules v = Some n \<Longrightarrow> v = Whole n"
  by (auto simp: bound_integer_def split: number.splits if_splits)

lemma bound_integer_in_range:
  "- (2 ^ 63) < n \<Longrightarrow> n < 2 ^ 63 \<Longrightarrow> bound_integer rules (Whole n) = Some n"
  by (simp add: bound_integer_def)

lemma bound_integer_out_of_range:
  "n < - (2 ^ 63) \<or> 2 ^ 63 \<le> n \<Longrightarrow> bound_integer rules (Whole n) = None"
  by (auto simp: bound_integer_def)

text \<open>A call that returns rows returns the page of the selected rows.\<close>

lemma searchDocuments_Inr:
  assumes "searchDocuments rules db options = Inr rows"
  shows "\<exists>lim off. page_limit options = Whole lim \<and> page_offset options = Whole off
           \<and> rows = limit_offset lim off (search_matches rules db options)"
proof -
  from assms obtain lim off where l: "bound_integer rules (page_limit options) = Some lim"
    and off: "bound_integer rules (page_offset options) = Some off"
    and rows: "rows = limit_offset lim off (search_matches rules db options)"
    by (auto simp: searchDocuments_def split: if_splits option.splits)
  from l have "page_limit options = Whole lim" by (rule bound_integer_Some)
  moreover from off have "page_offset options = Whole off" by (rule bound_integer_Some)
  ultimately show ?thesis using rows by blast
qed

text \<open>A call within the limits of the store returns.\<close>

lemma searchDocuments_runs:
  assumes "variable_count options \<le> max_variables rules"
    and "\<not> pattern_fault rules db options"
    and "page_limit options = Whole lim" and "- (2 ^ 63) < lim" and "lim < 2 ^ 63"
    and "page_offset options = Whole off" and "- (2 ^ 63) < off" and "off < 2 ^ 63"
  shows "searchDocuments rules db options =
           Inr (limit_offset lim off (search_matches rules db options))"
  using assms by (simp add: searchDocuments_def bound_integer_in_range)

lemma pattern_within_limit:
  "(case opt_query options of None \<Rightarrow> True | Some q \<Rightarrow> length q + 2 \<le> max_pattern rules)
     \<Longrightarrow> \<not> pattern_fault rules db options"
  by (auto simp: pattern_fault_def split: option.splits)

lemma search_where_not_archived:
  assumes "\<not> truthy_text (opt_status options)" "opt_includeArchived options \<noteq> Some True"
  shows "search_where rules db options d \<longleftrightarrow>
           status d \<noteq> ''archived''
           \<and> search_where rules db (options\<lparr>opt_includeArchived := Some True\<rparr>) d"
  using assms by (auto simp: search_where_def)

lemma search_where_limit:
  "search_where rules db (options\<lparr>opt_limit := l\<rparr>) d = search_where rules db options d"
  by (simp add: search_where_def)

lemma search_where_offset:
  "search_where rules db (options\<lparr>opt_offset := l\<rparr>) d = search_where rules db options d"
  by (simp add: search_where_def)

lemma search_matches_limit:
  "search_matches rules db (options\<lparr>opt_limit := l\<rparr>) = search_matches rules db options"
  unfolding search_matches_def by (simp add: search_where_limit cong: filter_cong)

lemma search_matches_offset:
  "search_matches rules db (options\<lparr>opt_offset := l\<rparr>) = search_matches rules db options"
  unfolding search_matches_def by (simp add: search_where_offset cong: filter_cong)

lemmas where_defs = search_where_def no_options_def truthy_text_def truthy_num_def

lemma where_draft: "search_where rules example_db no_options example_draft"
  by (simp add: where_defs example_draft_def)

lemma where_published: "search_where rules example_db no_options example_published"
  by (simp add: where_defs example_published_def)

lemma where_archived: "\<not> search_where rules example_db no_options example_archived"
  by (simp add: where_defs example_archived_def)

lemma documents_example:
  "documents example_db = [example_draft, example_published, example_archived]"
  by (simp add: example_db_def example_documents_def)

lemma example_where:
  "filter (search_where rules example_db no_options) (documents example_db) =
     [example_draft, example_published]"
  by (simp add: documents_example where_draft where_published where_archived)

lemma joined_draft:
  "joined_rows example_db example_draft =
     [\<lparr>row_document = example_draft, row_category_name = Some ''Policies'',
       row_category_slug = Some ''policies'', row_owner_name = Some ''System Administrator''\<rparr>]"
  by (simp add: joined_rows_def left_matches_def example_db_def example_users_def example_draft_def)

lemma joined_published:
  "joined_rows example_db example_published =
     [\<lparr>row_document = example_published, row_category_name = Some ''Policies'',
       row_category_slug = Some ''policies'', row_owner_name = Some ''System Administrator''\<rparr>]"
  by (simp add: joined_rows_def left_matches_def example_db_def example_users_def
        example_published_def)

lemma draft_not_published: "example_draft \<noteq> example_published"
  by (simp add: example_draft_def example_published_def)

lemmas number_defs = reads_as_number_def mantissa_text_def after_mantissa_def skip_sign_def
  fraction_digits_def skip_fraction_def has_exponent_def exponent_digits_def skip_exponent_def
  blank_def digit_def

text \<open>Texts that read as numbers, and texts that do not: the dates among them.\<close>

lemma reads_as_number_examples:
  "reads_as_number ''2025''"
  "reads_as_number '' -20.25e+2 ''"
  "reads_as_number ''.5''"
  "reads_as_number ''5.''"
  "\<not> reads_as_number ''2024-03-01''"
  "\<not> reads_as_number ''2024-01-03 09:00:00''"
  "\<not> reads_as_number []"
  "\<not> reads_as_number ''.''"
  "\<not> reads_as_number ''5e''"
  "\<not> reads_as_number ''0x10''"
  "\<not> reads_as_number ''1 2''"
  by (simp_all add: number_defs)

lemma example_reads:
  "\<not> reads_as_number ''2024-03-01''"
  "\<not> reads_as_number ''2024-02-01''"
  "\<not> reads_as_number ''2023-01-01''"
  "\<not> reads_as_number ''2024-02-15''"
  "\<not> reads_as_number ''2024-01-03 09:00:00''"
  "\<not> reads_as_number ''2024-01-02 09:00:00''"
  "reads_as_number ''2025''"
  by (simp_all add: number_defs)

text \<open>Numbers compare by value, not as text: 9 comes before 10, and 1e3 after 999.5.\<close>

lemma numeric_less_examples:
  "numeric_less example_rules ''9'' ''10''"
  "\<not> text_less ''9'' ''10''"
  "numeric_less example_rules ''999.5'' ''1e3''"
  "\<not> numeric_less example_rules ''1e3'' ''999.5''"
  "numeric_less example_rules ''-1'' ''0''"
  "numeric_less example_rules ''99999999'' ''2024-03-01''"
  "\<not> numeric_less example_rules ''2024-03-01'' ''99999999''"
  "numeric_less example_rules ''2024-02-01'' ''2024-03-01''"
  by (simp_all add: numeric_less_def number_defs example_rules_def decimal_def decimal_less_def
        negative_def digits_value_def digit_value_def)

lemma order_example:
  "\<not> numeric_less example_rules (updated_at example_draft) (updated_at example_published)"
  by (simp add: numeric_less_def example_reads example_draft_def example_published_def)

lemma example_matches:
  "search_matches example_rules example_db no_options =
     [\<lparr>row_document = example_draft, row_category_name = Some ''Policies'',
       row_category_slug = Some ''policies'', row_owner_name = Some ''System Administrator''\<rparr>,
      \<lparr>row_document = example_published, row_category_name = Some ''Policies'',
       row_category_slug = Some ''policies'', row_owner_name = Some ''System Administrator''\<rparr>]"
  unfolding search_matches_def example_where
  by (simp add: joined_draft joined_published draft_not_published
        draft_not_published [THEN not_sym] order_rows_def sort_by_def order_example
        no_options_def)

lemma example_limits:
  "max_variables example_rules = 100" "max_pattern example_rules = 50"
  "least_integer_bound example_rules = False"
  by (simp_all add: example_rules_def)

lemma example_count:
  "variable_count no_options = 2"
  "variable_count (no_options\<lparr>opt_limit := l\<rparr>) = 2"
  "variable_count (no_options\<lparr>opt_offset := l\<rparr>) = 2"
  by (simp_all add: variable_count_def no_options_def truthy_text_def truthy_num_def)

lemma example_no_fault:
  "\<not> pattern_fault rules db no_options"
  "\<not> pattern_fault rules db (no_options\<lparr>opt_limit := l\<rparr>)"
  "\<not> pattern_fault rules db (no_options\<lparr>opt_offset := l\<rparr>)"
  by (simp_all add: pattern_fault_def no_options_def)

lemma example_pages:
  "page_limit no_options = Whole 20"
  "page_offset no_options = Whole 0"
  "page_limit (no_options\<lparr>opt_limit := Some (Whole 1)\<rparr>) = Whole 1"
  "page_limit (no_options\<lparr>opt_limit := Some (Whole 0)\<rparr>) = Whole 20"
  "page_offset (no_options\<lparr>opt_limit := l\<rparr>) = Whole 0"
  "page_limit (no_options\<lparr>opt_offset := l\<rparr>) = Whole 20"
  "page_offset (no_options\<lparr>opt_offset := Some (Whole 1)\<rparr>) = Whole 1"
  "n \<noteq> 0 \<Longrightarrow> page_limit (no_options\<lparr>opt_limit := Some (Whole n)\<rparr>) = Whole n"
  "page_limit (no_options\<lparr>opt_limit := Some Fractional\<rparr>) = Fractional"
  "page_offset (no_options\<lparr>opt_offset := Some Infinite\<rparr>) = Infinite"
  by (simp_all add: page_limit_def page_offset_def no_options_def)

lemma example_page_default:
  "searchDocuments example_rules example_db no_options =
     Inr (search_matches example_rules example_db no_options)"
proof -
  have "searchDocuments example_rules example_db no_options =
      Inr (limit_offset 20 0 (search_matches example_rules example_db no_options))"
    by (rule searchDocuments_runs)
       (simp_all add: example_count example_limits example_no_fault example_pages)
  then show ?thesis by (simp add: limit_offset_def example_matches)
qed

lemma example_page_one:
  "searchDocuments example_rules example_db (no_options\<lparr>opt_limit := Some (Whole 1)\<rparr>) =
     Inr [\<lparr>row_document = example_draft, row_category_name = Some ''Policies'',
           row_category_slug = Some ''policies'',
           row_owner_name = Some ''System Administrator''\<rparr>]"
proof -
  have "searchDocuments example_rules example_db (no_options\<lparr>opt_limit := Some (Whole 1)\<rparr>) =
      Inr (limit_offset 1 0
             (search_matches example_rules example_db (no_options\<lparr>opt_limit := Some (Whole 1)\<rparr>)))"
    by (rule searchDocuments_runs)
       (simp_all add: example_count example_limits example_no_fault example_pages)
  then show ?thesis by (simp add: limit_offset_def search_matches_limit example_matches)
qed

lemma example_page_zero:
  "searchDocuments example_rules example_db (no_options\<lparr>opt_limit := Some (Whole 0)\<rparr>) =
     Inr (search_matches example_rules example_db no_options)"
proof -
  have "searchDocuments example_rules example_db (no_options\<lparr>opt_limit := Some (Whole 0)\<rparr>) =
      Inr (limit_offset 20 0
             (search_matches example_rules example_db (no_options\<lparr>opt_limit := Some (Whole 0)\<rparr>)))"
    by (rule searchDocuments_runs)
       (simp_all add: example_count example_limits example_no_fault example_pages)
  then show ?thesis by (simp add: limit_offset_def search_matches_limit example_matches)
qed

lemma example_page_skip:
  "searchDocuments example_rules example_db (no_options\<lparr>opt_offset := Some (Whole 1)\<rparr>) =
     Inr [\<lparr>row_document = example_published, row_category_name = Some ''Policies'',
           row_category_slug = Some ''policies'',
           row_owner_name = Some ''System Administrator''\<rparr>]"
proof -
  have "searchDocuments example_rules example_db (no_options\<lparr>opt_offset := Some (Whole 1)\<rparr>) =
      Inr (limit_offset 20 1
             (search_matches example_rules example_db (no_options\<lparr>opt_offset := Some (Whole 1)\<rparr>)))"
    by (rule searchDocuments_runs)
       (simp_all add: example_count example_limits example_no_fault example_pages)
  then show ?thesis by (simp add: limit_offset_def search_matches_offset example_matches)
qed

text \<open>
  Calls that throw: a limit of \<open>2 ^ 63\<close>, a limit with a fractional part, an infinite
  offset, and more tags than the store takes variables.
\<close>

lemma example_limit_too_large:
  "searchDocuments example_rules example_db (no_options\<lparr>opt_limit := Some (Whole (2 ^ 63))\<rparr>) =
     Inl DatatypeMismatch"
  by (simp add: searchDocuments_def example_count example_limits example_pages
        bound_integer_def)

lemma example_limit_fractional:
  "searchDocuments example_rules example_db (no_options\<lparr>opt_limit := Some Fractional\<rparr>) =
     Inl DatatypeMismatch"
  by (simp add: searchDocuments_def example_count example_limits example_pages
        bound_integer_def)

lemma example_offset_infinite:
  "searchDocuments example_rules example_db (no_options\<lparr>opt_offset := Some Infinite\<rparr>) =
     Inl DatatypeMismatch"
  by (simp add: searchDocuments_def example_count example_limits example_pages
        bound_integer_def)

lemma example_too_many_tags:
  "searchDocuments example_rules example_db
     (no_options\<lparr>opt_tags := Some (replicate 99 (Whole 1))\<rparr>) = Inl TooManyVariables"
  by (simp add: searchDocuments_def variable_count_def example_limits no_options_def
        truthy_text_def truthy_num_def)

text \<open>
  The date filters compare values of a \<open>DATE\<close> column. A bound text that reads as a
  number comes before every date text: \<open>toDate\<close> \<open>2025\<close> selects no row and
  \<open>fromDate\<close> \<open>2025\<close> leaves out none; a date text is compared byte by byte.
\<close>

lemma example_toDate_number:
  "searchDocuments example_rules example_db (no_options\<lparr>opt_toDate := Some ''2025''\<rparr>) = Inr []"
proof -
  have none: "filter (search_where example_rules example_db (no_options\<lparr>opt_toDate := Some ''2025''\<rparr>))
      (documents example_db) = []"
    by (simp add: documents_example where_defs numeric_less_def example_reads
          example_draft_def example_published_def example_archived_def)
  have "searchDocuments example_rules example_db (no_options\<lparr>opt_toDate := Some ''2025''\<rparr>) =
      Inr (limit_offset 20 0
             (search_matches example_rules example_db (no_options\<lparr>opt_toDate := Some ''2025''\<rparr>)))"
    by (rule searchDocuments_runs)
       (simp_all add: variable_count_def truthy_text_def truthy_num_def example_limits
          pattern_fault_def page_limit_def page_offset_def no_options_def)
  then show ?thesis
    by (simp add: search_matches_def none order_rows_def sort_by_def limit_offset_def)
qed

lemma example_fromDate_number:
  "filter (search_where example_rules example_db (no_options\<lparr>opt_fromDate := Some ''2025''\<rparr>))
     (documents example_db) = [example_draft, example_published]"
  by (simp add: documents_example where_defs numeric_less_def example_reads
        example_draft_def example_published_def example_archived_def)

lemma example_fromDate_text:
  "filter (search_where example_rules example_db
             (no_options\<lparr>opt_fromDate := Some ''2024-02-15''\<rparr>))
     (documents example_db) = [example_draft]"
  by (simp add: documents_example where_defs numeric_less_def example_reads
        example_draft_def example_published_def example_archived_def)

text \<open>
  The query matches without regard to the case of ASCII letters, \<open>_\<close> stands for one
  character of however many bytes, and an archived document is left out.
\<close>

lemma example_like:
  "like_text ''%RIGHTS%'' ''Consumer Rights Policy''"
  "like_text ''%caf_ m%'' (''Caf'' @ [CHR 0xC3, CHR 0xA9] @ '' Menu'')"
  "\<not> like_text ''%caf__ m%'' (''Caf'' @ [CHR 0xC3, CHR 0xA9] @ '' Menu'')"
  "\<not> like_text ''%visitor%'' ''Consumer Rights Policy''"
  by (simp_all add: like_text_def c_text_def lower_char_def rest_of_char_def continuation_def)

text \<open>
  C4, amended. When the options give no status and do not set \<open>includeArchived\<close>: a
  call of \<open>searchDocuments\<close> that returns rows returns no archived document, and its
  rows are the page that \<open>limit\<close> and \<open>offset\<close> cut from the rows the query
  selects; every document that is not archived and passes the other filters is among the
  selected rows; and the call returns that page whenever the statement is within the
  limits of the store and the limit and the offset are whole numbers strictly between
  \<open>- 2 ^ 63\<close> and \<open>2 ^ 63\<close>: all the selected rows when the offset is not positive
  and they number at most the limit.
\<close>

theorem searchDocuments_default_status:
  "\<not> truthy_text (opt_status options) \<and> opt_includeArchived options \<noteq> Some True \<longrightarrow>
     (searchDocuments rules db options = Inr rows \<longrightarrow>
        (\<forall>r \<in> set rows. status (row_document r) \<noteq> ''archived'')
        \<and> (\<exists>lim off. page_limit options = Whole lim \<and> page_offset options = Whole off
              \<and> rows = limit_offset lim off (search_matches rules db options)))
     \<and> (\<forall>d \<in> set (documents db).
           status d \<noteq> ''archived''
           \<and> search_where rules db (options\<lparr>opt_includeArchived := Some True\<rparr>) d
           \<longrightarrow> d \<in> row_document ` set (search_matches rules db options))
     \<and> (variable_count options \<le> max_variables rules
          \<and> \<not> pattern_fault rules db options
          \<and> page_limit options = Whole l \<and> - (2 ^ 63) < l \<and> l < 2 ^ 63
          \<and> page_offset options = Whole m \<and> - (2 ^ 63) < m \<and> m < 2 ^ 63
        \<longrightarrow> searchDocuments rules db options =
              Inr (limit_offset l m (search_matches rules db options))
            \<and> (m \<le> 0 \<and> int (length (search_matches rules db options)) \<le> l
                 \<longrightarrow> searchDocuments rules db options = Inr (search_matches rules db options)))"
proof (intro impI, elim conjE)
  assume no_status: "\<not> truthy_text (opt_status options)"
    and no_flag: "opt_includeArchived options \<noteq> Some True"
  note split = search_where_not_archived [OF no_status no_flag]
  have returned: "searchDocuments rules db options = Inr rows \<longrightarrow>
        (\<forall>r \<in> set rows. status (row_document r) \<noteq> ''archived'')
        \<and> (\<exists>lim off. page_limit options = Whole lim \<and> page_offset options = Whole off
              \<and> rows = limit_offset lim off (search_matches rules db options))"
  proof
    assume "searchDocuments rules db options = Inr rows"
    then have page: "\<exists>lim off. page_limit options = Whole lim \<and> page_offset options = Whole off
        \<and> rows = limit_offset lim off (search_matches rules db options)"
      by (rule searchDocuments_Inr)
    have "\<forall>r \<in> set rows. status (row_document r) \<noteq> ''archived''"
    proof
      fix r assume r: "r \<in> set rows"
      from page obtain lim off
        where "rows = limit_offset lim off (search_matches rules db options)" by blast
      with r set_limit_offset [of lim off "search_matches rules db options"]
      have "r \<in> set (search_matches rules db options)" by blast
      then have "row_document r \<in> row_document ` set (search_matches rules db options)"
        by (rule imageI)
      then have "search_where rules db options (row_document r)"
        by (simp only: documents_of_matches) simp
      with split show "status (row_document r) \<noteq> ''archived''" by blast
    qed
    with page show "(\<forall>r \<in> set rows. status (row_document r) \<noteq> ''archived'')
        \<and> (\<exists>lim off. page_limit options = Whole lim \<and> page_offset options = Whole off
              \<and> rows = limit_offset lim off (search_matches rules db options))"
      by (rule conjI [rotated])
  qed
  have others: "\<forall>d \<in> set (documents db).
           status d \<noteq> ''archived''
           \<and> search_where rules db (options\<lparr>opt_includeArchived := Some True\<rparr>) d
           \<longrightarrow> d \<in> row_document ` set (search_matches rules db options)"
    using split by (simp add: documents_of_matches)
  have runs: "variable_count options \<le> max_variables rules
          \<and> \<not> pattern_fault rules db options
          \<and> page_limit options = Whole l \<and> - (2 ^ 63) < l \<and> l < 2 ^ 63
          \<and> page_offset options = Whole m \<and> - (2 ^ 63) < m \<and> m < 2 ^ 63
        \<longrightarrow> searchDocuments rules db options =
              Inr (limit_offset l m (search_matches rules db options))
            \<and> (m \<le> 0 \<and> int (length (search_matches rules db options)) \<le> l
                 \<longrightarrow> searchDocuments rules db options = Inr (search_matches rules db options))"
  proof (intro impI, elim conjE)
    assume "variable_count options \<le> max_variables rules"
      and "\<not> pattern_fault rules db options"
      and "page_limit options = Whole l" and "- (2 ^ 63) < l" and "l < 2 ^ 63"
      and "page_offset options = Whole m" and "- (2 ^ 63) < m" and "m < 2 ^ 63"
    then have page: "searchDocuments rules db options =
        Inr (limit_offset l m (search_matches rules db options))"
      by (rule searchDocuments_runs)
    have "m \<le> 0 \<and> int (length (search_matches rules db options)) \<le> l
        \<longrightarrow> searchDocuments rules db options = Inr (search_matches rules db options)"
      by (auto simp: page limit_offset_def)
    with page show "searchDocuments rules db options =
              Inr (limit_offset l m (search_matches rules db options))
            \<and> (m \<le> 0 \<and> int (length (search_matches rules db options)) \<le> l
                 \<longrightarrow> searchDocuments rules db options = Inr (search_matches rules db options))"
      by (rule conjI)
  qed
  from returned others runs
  show "(searchDocuments rules db options = Inr rows \<longrightarrow>
        (\<forall>r \<in> set rows. status (row_document r) \<noteq> ''archived'')
        \<and> (\<exists>lim off. page_limit options = Whole lim \<and> page_offset options = Whole off
              \<and> rows = limit_offset lim off (search_matches rules db options)))
     \<and> (\<forall>d \<in> set (documents db).
           status d \<noteq> ''archived''
           \<and> search_where rules db (options\<lparr>opt_includeArchived := Some True\<rparr>) d
           \<longrightarrow> d \<in> row_document ` set (search_matches rules db options))
     \<and> (variable_count options \<le> max_variables rules
          \<and> \<not> pattern_fault rules db options
          \<and> page_limit options = Whole l \<and> - (2 ^ 63) < l \<and> l < 2 ^ 63
          \<and> page_offset options = Whole m \<and> - (2 ^ 63) < m \<and> m < 2 ^ 63
        \<longrightarrow> searchDocuments rules db options =
              Inr (limit_offset l m (search_matches rules db options))
            \<and> (m \<le> 0 \<and> int (length (search_matches rules db options)) \<le> l
                 \<longrightarrow> searchDocuments rules db options = Inr (search_matches rules db options)))"
    by (intro conjI)
qed

theorem searchDocuments_default_status_witness:
  "\<not> truthy_text (opt_status no_options)
   \<and> opt_includeArchived no_options \<noteq> Some True
   \<and> variable_count no_options \<le> max_variables example_rules
   \<and> \<not> pattern_fault example_rules example_db no_options
   \<and> page_limit no_options = Whole 20
   \<and> page_offset no_options = Whole 0
   \<and> length (search_matches example_rules example_db no_options) = 2
   \<and> searchDocuments example_rules example_db no_options =
       Inr (search_matches example_rules example_db no_options)
   \<and> map (\<lambda>r. status (row_document r)) (search_matches example_rules example_db no_options) =
       [''draft'', ''published'']
   \<and> filter (\<lambda>r. status (row_document r) = ''archived'')
       (search_matches example_rules example_db no_options) = []
   \<and> status example_draft = ''draft''
   \<and> example_draft \<in> row_document ` set (search_matches example_rules example_db no_options)
   \<and> status example_published = ''published''
   \<and> example_published \<in> row_document ` set (search_matches example_rules example_db no_options)"
proof -
  have h1: "\<not> truthy_text (opt_status no_options)"
    by (simp add: no_options_def truthy_text_def)
  have h2: "opt_includeArchived no_options \<noteq> Some True" by (simp add: no_options_def)
  from h1 h2 have h: "\<not> truthy_text (opt_status no_options) \<and> opt_includeArchived no_options \<noteq> Some True"
    by (rule conjI)
  note facts = searchDocuments_default_status
    [of no_options example_rules example_db
        "search_matches example_rules example_db no_options" 20 0, THEN mp, OF h]
  have v: "variable_count no_options \<le> max_variables example_rules"
    by (simp add: example_count example_limits)
  have f: "\<not> pattern_fault example_rules example_db no_options" by (rule example_no_fault)
  have pl: "page_limit no_options = Whole 20" by (rule example_pages)
  have po: "page_offset no_options = Whole 0" by (rule example_pages)
  have len: "length (search_matches example_rules example_db no_options) = 2"
    by (simp add: example_matches)
  have in_range: "variable_count no_options \<le> max_variables example_rules
      \<and> \<not> pattern_fault example_rules example_db no_options
      \<and> page_limit no_options = Whole 20 \<and> - (2 ^ 63) < (20::int) \<and> (20::int) < 2 ^ 63
      \<and> page_offset no_options = Whole 0 \<and> - (2 ^ 63) < (0::int) \<and> (0::int) < 2 ^ 63"
    using v f pl po by simp
  have small: "(0::int) \<le> 0
      \<and> int (length (search_matches example_rules example_db no_options)) \<le> 20"
    by (simp add: len)
  from facts [THEN conjunct2, THEN conjunct2, THEN mp, OF in_range, THEN conjunct2, THEN mp,
      OF small]
  have whole: "searchDocuments example_rules example_db no_options =
      Inr (search_matches example_rules example_db no_options)" .
  from facts [THEN conjunct1, THEN mp, OF whole, THEN conjunct1]
  have clean: "\<forall>r \<in> set (search_matches example_rules example_db no_options).
      status (row_document r) \<noteq> ''archived''" .
  then have none: "filter (\<lambda>r. status (row_document r) = ''archived'')
       (search_matches example_rules example_db no_options) = []"
    by (simp add: filter_empty_conv)
  have statuses: "map (\<lambda>r. status (row_document r))
      (search_matches example_rules example_db no_options) = [''draft'', ''published'']"
    by (simp add: example_matches) (simp add: example_draft_def example_published_def)
  have sd: "status example_draft = ''draft''" by (simp add: example_draft_def)
  have sp: "status example_published = ''published''" by (simp add: example_published_def)
  have wd: "search_where example_rules example_db (no_options\<lparr>opt_includeArchived := Some True\<rparr>)
      example_draft"
    by (simp add: where_defs example_draft_def)
  have wp: "search_where example_rules example_db (no_options\<lparr>opt_includeArchived := Some True\<rparr>)
      example_published"
    by (simp add: where_defs example_published_def)
  note others = facts [THEN conjunct2, THEN conjunct1]
  have d: "example_draft \<in> row_document ` set (search_matches example_rules example_db no_options)"
    using others [THEN bspec, of example_draft] wd sd by (simp add: documents_example)
  have p: "example_published \<in> row_document ` set (search_matches example_rules example_db no_options)"
    using others [THEN bspec, of example_published] wp sp by (simp add: documents_example)
  from h1 h2 v f pl po len whole statuses none sd d sp p show ?thesis by (intro conjI)
qed

text \<open>
  C4 as stated does not hold: with no status given and a limit of 1, the published document
  of the example store passes every filter and is not in the result, which is the row of
  the draft alone.
\<close>

theorem searchDocuments_page_omits_match:
  "example_published \<in> set (documents example_db)
   \<and> status example_published = ''published''
   \<and> search_where example_rules example_db (no_options\<lparr>opt_limit := Some (Whole 1)\<rparr>)
       example_published
   \<and> opt_status (no_options\<lparr>opt_limit := Some (Whole 1)\<rparr>) = None
   \<and> opt_includeArchived (no_options\<lparr>opt_limit := Some (Whole 1)\<rparr>) = None
   \<and> searchDocuments example_rules example_db (no_options\<lparr>opt_limit := Some (Whole 1)\<rparr>) =
       Inr [\<lparr>row_document = example_draft, row_category_name = Some ''Policies'',
             row_category_slug = Some ''policies'',
             row_owner_name = Some ''System Administrator''\<rparr>]
   \<and> example_published \<noteq> example_draft"
proof (intro conjI)
  show "example_published \<in> set (documents example_db)" by (simp add: documents_example)
  show "status example_published = ''published''" by (simp add: example_published_def)
  show "search_where example_rules example_db (no_options\<lparr>opt_limit := Some (Whole 1)\<rparr>)
      example_published"
    by (simp add: search_where_limit where_published)
  show "opt_status (no_options\<lparr>opt_limit := Some (Whole 1)\<rparr>) = None"
    by (simp add: no_options_def)
  show "opt_includeArchived (no_options\<lparr>opt_limit := Some (Whole 1)\<rparr>) = None"
    by (simp add: no_options_def)
  show "searchDocuments example_rules example_db (no_options\<lparr>opt_limit := Some (Whole 1)\<rparr>) =
       Inr [\<lparr>row_document = example_draft, row_category_name = Some ''Policies'',
             row_category_slug = Some ''policies'',
             row_owner_name = Some ''System Administrator''\<rparr>]"
    by (rule example_page_one)
  show "example_published \<noteq> example_draft"
    using draft_not_published by (rule not_sym)
qed

text \<open>
  C10, amended. A call of \<open>searchDocuments\<close> that returns rows returns at most
  \<open>options.limit\<close> of them when that limit is a positive whole number and at most 20
  when it is unset, 0 or NaN; with a limit that is not negative, its rows are that many of
  the selected rows after the first \<open>options.offset\<close> of them, for an offset that is
  not negative, and from the first row on when the offset is unset, 0 or NaN. The call
  returns whenever the statement is within the limits of the store and the limit and the
  offset are whole numbers strictly between \<open>- 2 ^ 63\<close> and \<open>2 ^ 63\<close>; it throws
  when the limit or the offset is a whole number outside \<open>- 2 ^ 63\<close> to \<open>2 ^ 63\<close>, has
  a fractional part or is infinite.
\<close>

theorem searchDocuments_page_size:
  "(searchDocuments rules db options = Inr rows \<longrightarrow>
      (opt_limit options = Some (Whole n) \<and> 0 < n \<longrightarrow> int (length rows) \<le> n)
      \<and> (opt_limit options = None \<or> opt_limit options = Some (Whole 0)
           \<or> opt_limit options = Some NaN \<longrightarrow> length rows \<le> 20)
      \<and> (page_limit options = Whole l \<and> 0 \<le> l \<and> opt_offset options = Some (Whole m) \<and> 0 \<le> m
           \<longrightarrow> rows = take (nat l) (drop (nat m) (search_matches rules db options)))
      \<and> (page_limit options = Whole l \<and> 0 \<le> l
           \<and> (opt_offset options = None \<or> opt_offset options = Some NaN)
           \<longrightarrow> rows = take (nat l) (search_matches rules db options)))
   \<and> (variable_count options \<le> max_variables rules
        \<and> \<not> pattern_fault rules db options
        \<and> page_limit options = Whole l \<and> - (2 ^ 63) < l \<and> l < 2 ^ 63
        \<and> page_offset options = Whole m \<and> - (2 ^ 63) < m \<and> m < 2 ^ 63
      \<longrightarrow> searchDocuments rules db options =
            Inr (limit_offset l m (search_matches rules db options)))
   \<and> ((page_limit options = Whole l \<and> (l < - (2 ^ 63) \<or> 2 ^ 63 \<le> l))
        \<or> page_limit options = Fractional \<or> page_limit options = Infinite
        \<or> (page_offset options = Whole m \<and> (m < - (2 ^ 63) \<or> 2 ^ 63 \<le> m))
        \<or> page_offset options = Fractional \<or> page_offset options = Infinite
      \<longrightarrow> searchDocuments rules db options = Inl TooManyVariables
          \<or> searchDocuments rules db options = Inl DatatypeMismatch)"
proof (intro conjI)
  show "searchDocuments rules db options = Inr rows \<longrightarrow>
      (opt_limit options = Some (Whole n) \<and> 0 < n \<longrightarrow> int (length rows) \<le> n)
      \<and> (opt_limit options = None \<or> opt_limit options = Some (Whole 0)
           \<or> opt_limit options = Some NaN \<longrightarrow> length rows \<le> 20)
      \<and> (page_limit options = Whole l \<and> 0 \<le> l \<and> opt_offset options = Some (Whole m) \<and> 0 \<le> m
           \<longrightarrow> rows = take (nat l) (drop (nat m) (search_matches rules db options)))
      \<and> (page_limit options = Whole l \<and> 0 \<le> l
           \<and> (opt_offset options = None \<or> opt_offset options = Some NaN)
           \<longrightarrow> rows = take (nat l) (search_matches rules db options))"
  proof
    assume "searchDocuments rules db options = Inr rows"
    then obtain lim off where lim: "page_limit options = Whole lim"
      and off: "page_offset options = Whole off"
      and rows: "rows = limit_offset lim off (search_matches rules db options)"
      using searchDocuments_Inr by blast
    have a: "opt_limit options = Some (Whole n) \<and> 0 < n \<longrightarrow> int (length rows) \<le> n"
      using lim by (auto simp: rows limit_offset_def page_limit_def)
    have b: "opt_limit options = None \<or> opt_limit options = Some (Whole 0)
           \<or> opt_limit options = Some NaN \<longrightarrow> length rows \<le> 20"
      using lim by (auto simp: rows limit_offset_def page_limit_def)
    have c: "page_limit options = Whole l \<and> 0 \<le> l \<and> opt_offset options = Some (Whole m) \<and> 0 \<le> m
           \<longrightarrow> rows = take (nat l) (drop (nat m) (search_matches rules db options))"
      using lim off by (auto simp: rows limit_offset_def page_offset_def split: if_splits)
    have d: "page_limit options = Whole l \<and> 0 \<le> l
           \<and> (opt_offset options = None \<or> opt_offset options = Some NaN)
           \<longrightarrow> rows = take (nat l) (search_matches rules db options)"
      using lim off by (auto simp: rows limit_offset_def page_offset_def split: if_splits)
    from a b c d show "(opt_limit options = Some (Whole n) \<and> 0 < n \<longrightarrow> int (length rows) \<le> n)
      \<and> (opt_limit options = None \<or> opt_limit options = Some (Whole 0)
           \<or> opt_limit options = Some NaN \<longrightarrow> length rows \<le> 20)
      \<and> (page_limit options = Whole l \<and> 0 \<le> l \<and> opt_offset options = Some (Whole m) \<and> 0 \<le> m
           \<longrightarrow> rows = take (nat l) (drop (nat m) (search_matches rules db options)))
      \<and> (page_limit options = Whole l \<and> 0 \<le> l
           \<and> (opt_offset options = None \<or> opt_offset options = Some NaN)
           \<longrightarrow> rows = take (nat l) (search_matches rules db options))"
      by (intro conjI)
  qed
  show "variable_count options \<le> max_variables rules
        \<and> \<not> pattern_fault rules db options
        \<and> page_limit options = Whole l \<and> - (2 ^ 63) < l \<and> l < 2 ^ 63
        \<and> page_offset options = Whole m \<and> - (2 ^ 63) < m \<and> m < 2 ^ 63
      \<longrightarrow> searchDocuments rules db options =
            Inr (limit_offset l m (search_matches rules db options))"
    by (intro impI, elim conjE) (rule searchDocuments_runs)
  show "(page_limit options = Whole l \<and> (l < - (2 ^ 63) \<or> 2 ^ 63 \<le> l))
        \<or> page_limit options = Fractional \<or> page_limit options = Infinite
        \<or> (page_offset options = Whole m \<and> (m < - (2 ^ 63) \<or> 2 ^ 63 \<le> m))
        \<or> page_offset options = Fractional \<or> page_offset options = Infinite
      \<longrightarrow> searchDocuments rules db options = Inl TooManyVariables
          \<or> searchDocuments rules db options = Inl DatatypeMismatch"
  proof
    assume "(page_limit options = Whole l \<and> (l < - (2 ^ 63) \<or> 2 ^ 63 \<le> l))
        \<or> page_limit options = Fractional \<or> page_limit options = Infinite
        \<or> (page_offset options = Whole m \<and> (m < - (2 ^ 63) \<or> 2 ^ 63 \<le> m))
        \<or> page_offset options = Fractional \<or> page_offset options = Infinite"
    then have "bound_integer rules (page_limit options) = None
        \<or> bound_integer rules (page_offset options) = None"
      by (auto simp: bound_integer_def)
    then show "searchDocuments rules db options = Inl TooManyVariables
          \<or> searchDocuments rules db options = Inl DatatypeMismatch"
      by (auto simp: searchDocuments_def split: option.splits)
  qed
qed

theorem searchDocuments_page_size_witness:
  "searchDocuments example_rules example_db (no_options\<lparr>opt_limit := Some (Whole 1)\<rparr>) =
     Inr [\<lparr>row_document = example_draft, row_category_name = Some ''Policies'',
           row_category_slug = Some ''policies'',
           row_owner_name = Some ''System Administrator''\<rparr>]
   \<and> opt_limit (no_options\<lparr>opt_limit := Some (Whole 1)\<rparr>) = Some (Whole 1)
   \<and> int (length [\<lparr>row_document = example_draft, row_category_name = Some ''Policies'',
           row_category_slug = Some ''policies'',
           row_owner_name = Some ''System Administrator''\<rparr>]) \<le> 1
   \<and> searchDocuments example_rules example_db no_options =
       Inr (search_matches example_rules example_db no_options)
   \<and> opt_limit no_options = None
   \<and> length (search_matches example_rules example_db no_options) \<le> 20
   \<and> opt_offset (no_options\<lparr>opt_offset := Some (Whole 1)\<rparr>) = Some (Whole 1)
   \<and> searchDocuments example_rules example_db (no_options\<lparr>opt_offset := Some (Whole 1)\<rparr>) =
       Inr (take 20 (drop 1 (search_matches example_rules example_db no_options)))
   \<and> map (\<lambda>r. doc_id (row_document r))
       (take 20 (drop 1 (search_matches example_rules example_db no_options))) = [2]
   \<and> page_limit (no_options\<lparr>opt_limit := Some (Whole (2 ^ 63))\<rparr>) = Whole (2 ^ 63)
   \<and> searchDocuments example_rules example_db (no_options\<lparr>opt_limit := Some (Whole (2 ^ 63))\<rparr>) =
       Inl DatatypeMismatch"
proof -
  let ?one = "no_options\<lparr>opt_limit := Some (Whole 1)\<rparr>"
  let ?skip = "no_options\<lparr>opt_offset := Some (Whole 1)\<rparr>"
  let ?big = "no_options\<lparr>opt_limit := Some (Whole (2 ^ 63))\<rparr>"
  let ?row = "\<lparr>row_document = example_draft, row_category_name = Some ''Policies'',
           row_category_slug = Some ''policies'',
           row_owner_name = Some ''System Administrator''\<rparr>"
  have r1: "searchDocuments example_rules example_db ?one = Inr [?row]"
    by (rule example_page_one)
  have l1: "opt_limit ?one = Some (Whole 1) \<and> (0::int) < 1" by simp
  from searchDocuments_page_size [of example_rules example_db ?one "[?row]" 1,
      THEN conjunct1, THEN mp, OF r1, THEN conjunct1, THEN mp, OF l1]
  have a: "int (length [?row]) \<le> 1" .
  have in_range: "variable_count no_options \<le> max_variables example_rules
      \<and> \<not> pattern_fault example_rules example_db no_options
      \<and> page_limit no_options = Whole 20 \<and> - (2 ^ 63) < (20::int) \<and> (20::int) < 2 ^ 63
      \<and> page_offset no_options = Whole 0 \<and> - (2 ^ 63) < (0::int) \<and> (0::int) < 2 ^ 63"
    by (simp add: example_count example_limits example_no_fault example_pages)
  from searchDocuments_page_size [of example_rules example_db no_options _ _ 20 0,
      THEN conjunct2, THEN conjunct1, THEN mp, OF in_range]
  have r2: "searchDocuments example_rules example_db no_options =
      Inr (search_matches example_rules example_db no_options)"
    by (simp add: limit_offset_def example_matches)
  have l2: "opt_limit no_options = None" by (simp add: no_options_def)
  then have l2': "opt_limit no_options = None \<or> opt_limit no_options = Some (Whole 0)
      \<or> opt_limit no_options = Some NaN" by (rule disjI1)
  from searchDocuments_page_size [of example_rules example_db no_options
      "search_matches example_rules example_db no_options",
      THEN conjunct1, THEN mp, OF r2, THEN conjunct2, THEN conjunct1, THEN mp, OF l2']
  have b: "length (search_matches example_rules example_db no_options) \<le> 20" .
  have r3: "searchDocuments example_rules example_db ?skip =
      Inr [\<lparr>row_document = example_published, row_category_name = Some ''Policies'',
           row_category_slug = Some ''policies'',
           row_owner_name = Some ''System Administrator''\<rparr>]"
    by (rule example_page_skip)
  have l3: "page_limit ?skip = Whole 20 \<and> (0::int) \<le> 20
      \<and> opt_offset ?skip = Some (Whole 1) \<and> (0::int) \<le> 1"
    by (simp add: example_pages)
  from searchDocuments_page_size [of example_rules example_db ?skip _ _ 20 1,
      THEN conjunct1, THEN mp, OF r3, THEN conjunct2, THEN conjunct2, THEN conjunct1, THEN mp,
      OF l3]
  have c0: "[\<lparr>row_document = example_published, row_category_name = Some ''Policies'',
           row_category_slug = Some ''policies'',
           row_owner_name = Some ''System Administrator''\<rparr>] =
      take (nat 20) (drop (nat 1) (search_matches example_rules example_db ?skip))" .
  from r3 c0 have c: "searchDocuments example_rules example_db ?skip =
      Inr (take 20 (drop 1 (search_matches example_rules example_db no_options)))"
    by (simp add: search_matches_offset)
  have d: "map (\<lambda>r. doc_id (row_document r))
       (take 20 (drop 1 (search_matches example_rules example_db no_options))) = [2]"
    by (simp add: example_matches example_published_def)
  have pb: "page_limit ?big = Whole (2 ^ 63)" by (simp add: example_pages)
  then have l4: "(page_limit ?big = Whole (2 ^ 63) \<and> ((2 ^ 63 :: int) < - (2 ^ 63) \<or> (2 ^ 63 :: int) \<le> 2 ^ 63))
        \<or> page_limit ?big = Fractional \<or> page_limit ?big = Infinite
        \<or> (page_offset ?big = Whole 0 \<and> ((0::int) < - (2 ^ 63) \<or> 2 ^ 63 \<le> (0::int)))
        \<or> page_offset ?big = Fractional \<or> page_offset ?big = Infinite"
    by simp
  from searchDocuments_page_size [of example_rules example_db ?big _ _ "2 ^ 63" 0,
      THEN conjunct2, THEN conjunct2, THEN mp, OF l4]
  have "searchDocuments example_rules example_db ?big = Inl TooManyVariables
      \<or> searchDocuments example_rules example_db ?big = Inl DatatypeMismatch" .
  moreover have "searchDocuments example_rules example_db ?big \<noteq> Inl TooManyVariables"
    unfolding example_limit_too_large by simp
  ultimately have e: "searchDocuments example_rules example_db ?big = Inl DatatypeMismatch"
    by blast
  have l1a: "opt_limit ?one = Some (Whole 1)" by simp
  have l3a: "opt_offset ?skip = Some (Whole 1)" by simp
  from r1 l1a a r2 l2 b l3a c d pb e show ?thesis by (intro conjI)
qed

text \<open>
  C10 as stated does not hold: with \<open>limit\<close> 0 the call returns both selected rows of
  the example store, more than the limit.
\<close>

theorem searchDocuments_limit_zero:
  "opt_limit (no_options\<lparr>opt_limit := Some (Whole 0)\<rparr>) = Some (Whole 0)
   \<and> searchDocuments example_rules example_db (no_options\<lparr>opt_limit := Some (Whole 0)\<rparr>) =
       Inr (search_matches example_rules example_db no_options)
   \<and> length (search_matches example_rules example_db no_options) = 2"
  by (simp add: example_page_zero example_matches)

subsection \<open>Permission evaluation\<close>

lemma set_fold_set_add: "set (fold (\<lambda>p s. set_add s p) row acc) = set acc \<union> set row"
  by (induction row arbitrary: acc) (auto simp: set_add_def)

lemma set_fold_rows:
  "set (fold (\<lambda>row acc. fold (\<lambda>p s. set_add s p) row acc) rows acc) = set acc \<union> \<Union> (set ` set rows)"
  by (induction rows arbitrary: acc) (auto simp: set_fold_set_add)

lemma set_getUserPermissions:
  "set (getUserPermissions db userId) =
     {p. \<exists>r \<in> set (roles db). \<exists>ur \<in> set (user_roles db).
           role_id r = ur_role_id ur \<and> ur_user_id ur = userId \<and> p \<in> set (permissions r)}"
  by (auto simp: getUserPermissions_def set_fold_rows permission_rows_def)

text \<open>
  C1. \<open>hasPermission\<close> answers true exactly when some role assigned to the user lists
  the permission or lists the wildcard \<open>*\<close>; a user with no assignment, or whose roles
  all have empty permission lists, is denied every permission.
\<close>

theorem hasPermission_iff:
  "(hasPermission db userId perm \<longleftrightarrow>
      (\<exists>r \<in> set (roles db). \<exists>ur \<in> set (user_roles db).
          role_id r = ur_role_id ur \<and> ur_user_id ur = userId \<and>
          (perm \<in> set (permissions r) \<or> ''*'' \<in> set (permissions r))))
   \<and> ((\<forall>ur \<in> set (user_roles db). ur_user_id ur \<noteq> userId) \<longrightarrow>
          \<not> hasPermission db userId perm)
   \<and> ((\<forall>r \<in> set (roles db). \<forall>ur \<in> set (user_roles db).
          role_id r = ur_role_id ur \<and> ur_user_id ur = userId \<longrightarrow> permissions r = []) \<longrightarrow>
          \<not> hasPermission db userId perm)"
proof -
  have iff: "hasPermission db userId perm \<longleftrightarrow>
      (\<exists>r \<in> set (roles db). \<exists>ur \<in> set (user_roles db).
          role_id r = ur_role_id ur \<and> ur_user_id ur = userId \<and>
          (perm \<in> set (permissions r) \<or> ''*'' \<in> set (permissions r)))"
    unfolding hasPermission_def Let_def set_getUserPermissions by auto
  have none: "(\<forall>ur \<in> set (user_roles db). ur_user_id ur \<noteq> userId) \<longrightarrow>
          \<not> hasPermission db userId perm"
    unfolding iff by blast
  have empty: "(\<forall>r \<in> set (roles db). \<forall>ur \<in> set (user_roles db).
          role_id r = ur_role_id ur \<and> ur_user_id ur = userId \<longrightarrow> permissions r = []) \<longrightarrow>
          \<not> hasPermission db userId perm"
    unfolding iff by fastforce
  from iff none empty show ?thesis by blast
qed

theorem hasPermission_iff_witness:
  "filter (\<lambda>ur. ur_user_id ur = 4) (user_roles example_db) = []
   \<and> \<not> hasPermission example_db 4 ''read_published''
   \<and> permission_rows example_db 3 = [[]]
   \<and> \<not> hasPermission example_db 3 ''read_published''
   \<and> hasPermission example_db 2 ''read_published''
   \<and> \<not> hasPermission example_db 2 ''upload''
   \<and> hasPermission example_db 1 ''upload''"
proof -
  have none: "\<forall>ur \<in> set (user_roles example_db). ur_user_id ur \<noteq> 4"
    by (simp add: example_defs)
  have empty: "\<forall>r \<in> set (roles example_db). \<forall>ur \<in> set (user_roles example_db).
          role_id r = ur_role_id ur \<and> ur_user_id ur = 3 \<longrightarrow> permissions r = []"
    by (simp add: example_defs)
  have none': "filter (\<lambda>ur. ur_user_id ur = 4) (user_roles example_db) = []"
    by (simp add: example_defs)
  have empty': "permission_rows example_db 3 = [[]]"
    by (simp add: permission_rows_def example_defs)
  from none hasPermission_iff [of example_db 4 "''read_published''"]
  have a: "\<not> hasPermission example_db 4 ''read_published''" by blast
  from empty hasPermission_iff [of example_db 3 "''read_published''"]
  have b: "\<not> hasPermission example_db 3 ''read_published''" by blast
  have c: "hasPermission example_db 2 ''read_published''"
    using hasPermission_iff [of example_db 2 "''read_published''"] by (simp add: example_defs)
  have d: "\<not> hasPermission example_db 2 ''upload''"
    using hasPermission_iff [of example_db 2 "''upload''"] by (simp add: example_defs)
  have e: "hasPermission example_db 1 ''upload''"
    using hasPermission_iff [of example_db 1 "''upload''"] by (simp add: example_defs)
  from none' empty' a b c d e show ?thesis by blast
qed

end
